theory Spec2Isabelle
  imports Complex_Main "HOL-Library.Multiset"
begin

section \<open>Numbers\<close>

text \<open>
  The store of \<^verbatim>\<open>src/stores/detailStore.ts\<close> keeps the search results of one title,
  ranks them by a measured quality and picks a replacement when a source fails. The
  ranking is arithmetic on JavaScript numbers, which are the values of IEEE 754 binary64:
  \<^verbatim>\<open>NaN\<close>, the two infinities, and the finite values, which are real numbers with a
  significand of 53 bits and an exponent from -1022 to 1023. The two zeros are one value
  here: the store never divides by a zero and never prints one, so nothing it does tells
  them apart.
\<close>

datatype number = NaN | NegInfinity | Num real | Infinity

definition pow2 :: "int \<Rightarrow> real" where
  "pow2 e = (if 0 \<le> e then 2 ^ nat e else 1 / 2 ^ nat (- e))"

text \<open>The nearest integer, a half to the even neighbour.\<close>

definition roundTiesToEven :: "real \<Rightarrow> int" where
  "roundTiesToEven r =
     (let f = \<lfloor>r\<rfloor>; d = r - of_int f
      in if d < 1 / 2 then f else if 1 / 2 < d then f + 1 else if even f then f else f + 1)"

text \<open>The binary exponent of a positive real \<open>x\<close>: the \<open>e\<close> with
  \<open>pow2 e \<le> x < pow2 (e + 1)\<close>.\<close>

function exponent :: "real \<Rightarrow> int" where
  "exponent x =
     (if x \<le> 0 then 0
      else if x < 1 then exponent (2 * x) - 1
      else if 2 \<le> x then exponent (x / 2) + 1
      else 0)"
  by pat_completeness auto

termination
proof (relation "measure (\<lambda>x. if x < 1 then nat \<lceil>1 / x\<rceil> else nat \<lfloor>x\<rfloor>)")
  show "wf (measure (\<lambda>x::real. if x < 1 then nat \<lceil>1 / x\<rceil> else nat \<lfloor>x\<rfloor>))"
    by simp
next
  fix x :: real
  assume a: "\<not> x \<le> 0" "x < 1"
  have t: "1 < 1 / x" using a by simp
  show "(2 * x, x) \<in> measure (\<lambda>x. if x < 1 then nat \<lceil>1 / x\<rceil> else nat \<lfloor>x\<rfloor>)"
  proof (cases "2 * x < 1")
    case True
    have "2 \<le> 1 / x" using True a by (simp add: field_simps)
    hence "1 / (2 * x) \<le> 1 / x - 1" by (simp add: field_simps)
    hence "\<lceil>1 / (2 * x)\<rceil> \<le> \<lceil>1 / x - 1\<rceil>" by (rule ceiling_mono)
    hence "\<lceil>1 / (2 * x)\<rceil> < \<lceil>1 / x\<rceil>" by simp
    moreover have "0 < \<lceil>1 / x\<rceil>" using t by linarith
    ultimately show ?thesis using True a by simp
  next
    case False
    have "\<lfloor>2 * x\<rfloor> = 1" using False a by linarith
    moreover have "2 \<le> \<lceil>1 / x\<rceil>" using t by linarith
    ultimately show ?thesis using False a by simp
  qed
next
  fix x :: real
  assume a: "\<not> x \<le> 0" "\<not> x < 1" "2 \<le> x"
  have "\<lfloor>x / 2\<rfloor> \<le> \<lfloor>x - 1\<rfloor>" by (rule floor_mono) (use a in simp)
  hence "\<lfloor>x / 2\<rfloor> < \<lfloor>x\<rfloor>" by simp
  moreover have "0 < \<lfloor>x\<rfloor>" using a by linarith
  ultimately show "(x / 2, x) \<in> measure (\<lambda>x. if x < 1 then nat \<lceil>1 / x\<rceil> else nat \<lfloor>x\<rfloor>)"
    using a by simp
qed

declare exponent.simps [simp del]

text \<open>
  Rounding to nearest, ties to even, the one rounding of ECMAScript: the real \<open>x\<close> goes
  to the nearest multiple of the unit in the last place of its binade, which is
  \<open>pow2 (e - 52)\<close> for the exponent \<open>e\<close> of \<open>x\<close>, and \<open>pow2 (- 1074)\<close> below the normal
  range. \<open>toNumber\<close> is the Number value for a real: what is rounded to \<open>pow2 1024\<close> or
  beyond is an infinity.
\<close>

definition fl :: "real \<Rightarrow> real" where
  "fl x =
     (let e = max (exponent \<bar>x\<bar>) (- 1022);
          ulp = pow2 (e - 52)
      in of_int (roundTiesToEven (x / ulp)) * ulp)"

definition toNumber :: "real \<Rightarrow> number" where
  "toNumber r =
     (let x = fl r
      in if pow2 1024 \<le> x then Infinity
         else if x \<le> - pow2 1024 then NegInfinity
         else Num x)"

text \<open>
  The operators \<^verbatim>\<open>+\<close>, \<^verbatim>\<open>-\<close>, \<^verbatim>\<open>*\<close> and \<^verbatim>\<open>/\<close> on numbers: the exact result, rounded.
  A zero divisor is taken as \<open>+0\<close>.
\<close>

definition num_neg :: "number \<Rightarrow> number" where
  "num_neg a =
     (case a of NaN \<Rightarrow> NaN | NegInfinity \<Rightarrow> Infinity | Infinity \<Rightarrow> NegInfinity
      | Num x \<Rightarrow> Num (- x))"

definition num_add :: "number \<Rightarrow> number \<Rightarrow> number" where
  "num_add a b =
     (case a of
        NaN \<Rightarrow> NaN
      | Infinity \<Rightarrow> (case b of NaN \<Rightarrow> NaN | NegInfinity \<Rightarrow> NaN | _ \<Rightarrow> Infinity)
      | NegInfinity \<Rightarrow> (case b of NaN \<Rightarrow> NaN | Infinity \<Rightarrow> NaN | _ \<Rightarrow> NegInfinity)
      | Num x \<Rightarrow> (case b of Num y \<Rightarrow> toNumber (x + y) | _ \<Rightarrow> b))"

definition num_sub :: "number \<Rightarrow> number \<Rightarrow> number" where
  "num_sub a b = num_add a (num_neg b)"

text \<open>The product or quotient of an infinity and a number of the sign of \<open>y\<close>.\<close>

definition signedInfinity :: "number \<Rightarrow> real \<Rightarrow> number" where
  "signedInfinity a y = (if 0 \<le> y then a else num_neg a)"

definition num_mult :: "number \<Rightarrow> number \<Rightarrow> number" where
  "num_mult a b =
     (case a of
        NaN \<Rightarrow> NaN
      | Num x \<Rightarrow>
          (case b of
             NaN \<Rightarrow> NaN
           | Num y \<Rightarrow> toNumber (x * y)
           | _ \<Rightarrow> if x = 0 then NaN else signedInfinity b x)
      | _ \<Rightarrow>
          (case b of
             NaN \<Rightarrow> NaN
           | Num y \<Rightarrow> if y = 0 then NaN else signedInfinity a y
           | _ \<Rightarrow> if a = b then Infinity else NegInfinity))"

definition num_div :: "number \<Rightarrow> number \<Rightarrow> number" where
  "num_div a b =
     (case a of
        NaN \<Rightarrow> NaN
      | Num x \<Rightarrow>
          (case b of
             NaN \<Rightarrow> NaN
           | Num y \<Rightarrow>
               if y = 0 then (if x = 0 then NaN else if 0 < x then Infinity else NegInfinity)
               else toNumber (x / y)
           | _ \<Rightarrow> Num 0)
      | _ \<Rightarrow>
          (case b of
             Num y \<Rightarrow> signedInfinity a y
           | _ \<Rightarrow> NaN))"

text \<open>The comparisons \<^verbatim>\<open><\<close> and \<^verbatim>\<open><=\<close>, which are \<^verbatim>\<open>>\<close> and \<^verbatim>\<open>>=\<close> with the operands
  exchanged: false as soon as one side is \<^verbatim>\<open>NaN\<close>.\<close>

definition num_less :: "number \<Rightarrow> number \<Rightarrow> bool" where
  "num_less a b =
     (case a of
        NaN \<Rightarrow> False
      | NegInfinity \<Rightarrow> (case b of NaN \<Rightarrow> False | NegInfinity \<Rightarrow> False | _ \<Rightarrow> True)
      | Num x \<Rightarrow> (case b of Num y \<Rightarrow> x < y | Infinity \<Rightarrow> True | _ \<Rightarrow> False)
      | Infinity \<Rightarrow> False)"

definition num_le :: "number \<Rightarrow> number \<Rightarrow> bool" where
  "num_le a b = (a \<noteq> NaN \<and> b \<noteq> NaN \<and> \<not> num_less b a)"

text \<open>\<^verbatim>\<open>Math.min\<close> of two numbers, and \<^verbatim>\<open>Math.round\<close>, which rounds to the nearest
  integer, a half towards plus infinity, and is exact.\<close>

definition math_min :: "number \<Rightarrow> number \<Rightarrow> number" where
  "math_min a b = (if a = NaN \<or> b = NaN then NaN else if num_less a b then a else b)"

definition math_round :: "number \<Rightarrow> number" where
  "math_round a = (case a of Num x \<Rightarrow> Num (of_int \<lfloor>x + 1 / 2\<rfloor>) | _ \<Rightarrow> a)"


section \<open>Search results and their quality measurement\<close>

text \<open>
  A string is the sequence of the bytes of its UTF-8 encoding; literals of the source
  outside ASCII are written as these bytes.
\<close>

record VideoInfo =
  quality :: string
  loadSpeed :: string
  pingTime :: number

text \<open>The interface \<^verbatim>\<open>SearchResult\<close> of the API client.\<close>

record SearchResult =
  ident :: int
  title :: string
  poster :: string
  episodes :: "string list"
  source :: string
  source_name :: string
  class_name :: "string option"
  year :: string
  desc :: "string option"
  type_name :: "string option"
  videoInfo :: "VideoInfo option"

subsection \<open>calculateVideoScore\<close>

fun qualityScore :: "string \<Rightarrow> number" where
  "qualityScore label =
     (if label = ''4K'' then Num 100
      else if label = ''2K'' then Num 85
      else if label = ''1080p'' then Num 75
      else if label = ''720p'' then Num 60
      else if label = ''480p'' then Num 40
      else if label = ''SD'' then Num 20
      else Num 30)"

text \<open>The two sentinel labels of the source, \<open>unknown\<close> and \<open>measuring...\<close> in
  Chinese.\<close>

definition label_unknown :: string where
  "label_unknown = [CHR 0xE6, CHR 0x9C, CHR 0xAA, CHR 0xE7, CHR 0x9F, CHR 0xA5]"

definition label_measuring :: string where
  "label_measuring =
     [CHR 0xE6, CHR 0xB5, CHR 0x8B, CHR 0xE9, CHR 0x87, CHR 0x8F, CHR 0xE4, CHR 0xB8, CHR 0xAD,
      CHR ''.'', CHR ''.'', CHR ''.'']"

definition is_digit :: "char \<Rightarrow> bool" where
  "is_digit c = (c \<in> set ''0123456789'')"

definition is_digit_or_dot :: "char \<Rightarrow> bool" where
  "is_digit_or_dot c = (is_digit c \<or> c = CHR ''.'')"

text \<open>
  The class \<^verbatim>\<open>\s\<close>: the white space and the line terminators of ECMAScript. Six of
  them are ASCII characters (tab, line feed, vertical tab, form feed, carriage return,
  space); the others are U+00A0, then U+1680, U+2000 to U+200A, U+2028, U+2029, U+202F,
  U+205F, U+3000 and U+FEFF, two and three bytes long.
\<close>

definition is_space :: "char \<Rightarrow> bool" where
  "is_space c = (c \<in> {CHR 0x09, CHR 0x0A, CHR 0x0B, CHR 0x0C, CHR 0x0D, CHR 0x20})"

definition is_space2 :: "char \<Rightarrow> char \<Rightarrow> bool" where
  "is_space2 a b = (a = CHR 0xC2 \<and> b = CHR 0xA0)"

definition is_space3 :: "char \<Rightarrow> char \<Rightarrow> char \<Rightarrow> bool" where
  "is_space3 a b c =
     ((a = CHR 0xE1 \<and> b = CHR 0x9A \<and> c = CHR 0x80)
      \<or> (a = CHR 0xE2 \<and> b = CHR 0x80
          \<and> c \<in> {CHR 0x80, CHR 0x81, CHR 0x82, CHR 0x83, CHR 0x84, CHR 0x85, CHR 0x86,
                   CHR 0x87, CHR 0x88, CHR 0x89, CHR 0x8A, CHR 0xA8, CHR 0xA9, CHR 0xAF})
      \<or> (a = CHR 0xE2 \<and> b = CHR 0x81 \<and> c = CHR 0x9F)
      \<or> (a = CHR 0xE3 \<and> b = CHR 0x80 \<and> c = CHR 0x80)
      \<or> (a = CHR 0xEF \<and> b = CHR 0xBB \<and> c = CHR 0xBF))"

text \<open>What is left of a string after the white space it starts with.\<close>

fun skip_space :: "string \<Rightarrow> string" where
  "skip_space (a # b # c # cs) =
     (if is_space a then skip_space (b # c # cs)
      else if is_space2 a b then skip_space (c # cs)
      else if is_space3 a b c then skip_space cs
      else a # b # c # cs)"
| "skip_space [a, b] =
     (if is_space a then skip_space [b] else if is_space2 a b then [] else [a, b])"
| "skip_space [a] = (if is_space a then [] else [a])"
| "skip_space [] = []"

text \<open>
  \<^verbatim>\<open>speedStr.match(/^([\d.]+)\s*(KB\/s|MB\/s)$/)\<close>: the two groups of the match, if any.
  The character class is greedy and neither \<^verbatim>\<open>\s\<close> nor a unit starts with a digit or a
  dot, so the only possible match takes the longest run of digits and dots, then the
  longest run of white space, and needs the rest to be exactly one of the units.
\<close>

definition matchSpeed :: "string \<Rightarrow> (string \<times> string) option" where
  "matchSpeed speedStr =
     (let magnitude = takeWhile is_digit_or_dot speedStr;
          unit = skip_space (dropWhile is_digit_or_dot speedStr)
      in if magnitude \<noteq> [] \<and> (unit = ''KB/s'' \<or> unit = ''MB/s'')
         then Some (magnitude, unit) else None)"

definition digit_val :: "char \<Rightarrow> nat" where
  "digit_val c = of_char c - 48"

definition digits_val :: "string \<Rightarrow> nat" where
  "digits_val ds = foldl (\<lambda>n c. 10 * n + digit_val c) 0 ds"

text \<open>
  \<^verbatim>\<open>parseFloat\<close> on the strings the regular expression lets through (digits and dots):
  it reads the longest prefix that is a decimal literal, digits with an optional dot and
  more digits, or a dot and digits, and gives the Number value for it, or \<^verbatim>\<open>NaN\<close> when
  there is no such prefix.
\<close>

definition parseFloat :: "string \<Rightarrow> number" where
  "parseFloat s =
     (let ip = takeWhile is_digit s;
          rest = dropWhile is_digit s;
          fp = (case rest of
                  [] \<Rightarrow> []
                | c # cs \<Rightarrow> if c = CHR ''.'' then takeWhile is_digit cs else [])
      in if ip = [] \<and> fp = [] then NaN
         else toNumber (real (digits_val ip) + real (digits_val fp) / 10 ^ length fp))"

text \<open>The local \<^verbatim>\<open>speedKBps\<close> of the source, for a label the regular expression
  matches.\<close>

definition speedKBps :: "string \<Rightarrow> number option" where
  "speedKBps speedStr =
     (case matchSpeed speedStr of
        None \<Rightarrow> None
      | Some (magnitude, unit) \<Rightarrow>
          (let value = parseFloat magnitude
           in Some (if unit = ''MB/s'' then num_mult value (Num 1024) else value)))"

definition maxSpeed :: number where
  "maxSpeed = Num 5120"

definition speedScore :: "string \<Rightarrow> number" where
  "speedScore speedStr =
     (if speedStr = label_unknown \<or> speedStr = label_measuring then Num 30
      else case speedKBps speedStr of
             None \<Rightarrow> Num 30
           | Some kbps \<Rightarrow>
               (let speedRatio = math_min (num_div kbps maxSpeed) (Num 1)
                in num_mult speedRatio (Num 100)))"

definition pingScore :: "number \<Rightarrow> number" where
  "pingScore ping =
     (if num_le ping (Num 0) then Num 0
      else
        (let minPing = Num 50;
             maxPing = Num 1000
         in if num_le ping minPing then Num 100
            else if num_le maxPing ping then Num 0
            else num_mult (num_div (num_sub maxPing ping) (num_sub maxPing minPing)) (Num 100)))"

text \<open>The literals \<^verbatim>\<open>0.4\<close> and \<^verbatim>\<open>0.2\<close> are the Number values for these decimals.\<close>

definition calculateVideoScore :: "VideoInfo \<Rightarrow> number" where
  "calculateVideoScore v =
     (let score = Num 0;
          score = num_add score (num_mult (qualityScore (quality v)) (toNumber (4 / 10)));
          score = num_add score (num_mult (speedScore (loadSpeed v)) (toNumber (4 / 10)));
          score = num_add score (num_mult (pingScore (pingTime v)) (toNumber (2 / 10)))
      in num_div (math_round (num_mult score (Num 100))) (Num 100))"


section \<open>The store\<close>

text \<open>
  \<^verbatim>\<open>SearchResultWithResolution\<close>: a search result with the resolution the store attached
  to it. \<^verbatim>\<open>null\<close> and \<^verbatim>\<open>undefined\<close> are both \<open>None\<close>: the source reads the field only
  through \<^verbatim>\<open>resolution || ""\<close>.
\<close>

record SearchResultWithResolution = SearchResult +
  resolution :: "string option"

record SourceEntry =
  entry_source :: string
  entry_source_name :: string
  entry_resolution :: "string option"
  entry_videoInfo :: "VideoInfo option"

text \<open>
  The messages the store puts into \<^verbatim>\<open>error\<close>, one constructor for each template of the
  source, in the order of the lines 272, 279, 329, 369, 378, 391 and 418 (all of them
  non-empty strings, so all of them are truthy). The argument is the query or the
  message of the failure the template holds.
\<close>

datatype error_message =
    FallbackNotFound string
  | FallbackFailed string
  | NoEnabledResources
  | FanOutNotFound string
  | ResourcesFailed string
  | FinalNotFound string
  | UnexpectedError string

text \<open>
  \<^verbatim>\<open>DetailState\<close>. An \<^verbatim>\<open>AbortController\<close> is an object with an identity: the field
  \<open>controller\<close> holds the address of the controller, which is the position of the
  invocation of \<^verbatim>\<open>init\<close> that made it in the list of invocations of \<open>World\<close> below.
\<close>

record DetailState =
  q :: "string option"
  searchResults :: "SearchResultWithResolution list"
  sources :: "SourceEntry list"
  detail :: "SearchResultWithResolution option"
  loading :: bool
  error :: "error_message option"
  allSourcesLoaded :: bool
  controller :: "nat option"
  isFavorited :: bool
  failedSources :: "string set"

definition initialState :: DetailState where
  "initialState =
     \<lparr>q = None, searchResults = [], sources = [], detail = None, loading = True,
      error = None, allSourcesLoaded = False, controller = None, isFavorited = False,
      failedSources = {}\<rparr>"

subsection \<open>markSourceAsFailed\<close>

definition markSourceAsFailed :: "string \<Rightarrow> string \<Rightarrow> DetailState \<Rightarrow> DetailState" where
  "markSourceAsFailed src reason st =
     (let newFailedSources = insert src (failedSources st)
      in st\<lparr>failedSources := newFailedSources\<rparr>)"

subsection \<open>getNextAvailableSource\<close>

fun starts_with :: "string \<Rightarrow> string \<Rightarrow> bool" where
  "starts_with s [] = True"
| "starts_with [] (c # cs) = False"
| "starts_with (x # xs) (c # cs) = (x = c \<and> starts_with xs cs)"

text \<open>\<^verbatim>\<open>String.prototype.includes\<close>.\<close>

fun str_includes :: "string \<Rightarrow> string \<Rightarrow> bool" where
  "str_includes [] sub = (sub = [])"
| "str_includes (x # xs) sub = (starts_with (x # xs) sub \<or> str_includes xs sub)"

definition resolutionPriority :: "string \<Rightarrow> int" where
  "resolutionPriority res =
     (if str_includes res ''1080'' then 4
      else if str_includes res ''720'' then 3
      else if str_includes res ''480'' then 2
      else if str_includes res ''360'' then 1
      else 0)"

text \<open>The comparison function handed to \<^verbatim>\<open>sort\<close>. The priorities are small
  integers, whose difference is exact.\<close>

definition compareSources ::
  "SearchResultWithResolution \<Rightarrow> SearchResultWithResolution \<Rightarrow> number" where
  "compareSources a b =
     (case (videoInfo a, videoInfo b) of
        (Some va, Some vb) \<Rightarrow>
          (let scoreA = calculateVideoScore va;
               scoreB = calculateVideoScore vb
           in num_sub scoreB scoreA)
      | _ \<Rightarrow>
          (let aResolution = (case resolution a of Some r \<Rightarrow> r | None \<Rightarrow> []);
               bResolution = (case resolution b of Some r \<Rightarrow> r | None \<Rightarrow> [])
           in Num (real_of_int (resolutionPriority bResolution - resolutionPriority aResolution))))"

text \<open>
  \<^verbatim>\<open>Array.prototype.sort\<close> is the engine's. ECMAScript asks for a stable sort, reads a
  \<^verbatim>\<open>NaN\<close> of the comparison function as \<open>+0\<close>, puts \<open>x\<close> behind \<open>y\<close> when the
  comparison of \<open>x\<close> with \<open>y\<close> is positive, and leaves the order to the engine when the
  comparison function is not consistent. The model is the stable insertion sort: for a
  comparison function that compares a rank every stable sort gives its result (this is
  proved below), and its result is one of the orders an engine may give otherwise.
\<close>

definition sortCompare :: "('a \<Rightarrow> 'a \<Rightarrow> number) \<Rightarrow> 'a \<Rightarrow> 'a \<Rightarrow> number" where
  "sortCompare comparefn x y = (let v = comparefn x y in if v = NaN then Num 0 else v)"

fun insertSorted :: "('a \<Rightarrow> 'a \<Rightarrow> number) \<Rightarrow> 'a \<Rightarrow> 'a list \<Rightarrow> 'a list" where
  "insertSorted comparefn x [] = [x]"
| "insertSorted comparefn x (y # ys) =
     (if num_less (Num 0) (sortCompare comparefn x y)
      then y # insertSorted comparefn x ys else x # y # ys)"

definition arraySort :: "('a \<Rightarrow> 'a \<Rightarrow> number) \<Rightarrow> 'a list \<Rightarrow> 'a list" where
  "arraySort comparefn xs = foldr (insertSorted comparefn) xs []"

text \<open>
  The local \<^verbatim>\<open>availableSources\<close> before it is sorted. \<open>episodeIndex\<close> is a number, any
  number: the source compares it with the length and never uses it as an index.
\<close>

definition availableSources ::
  "string \<Rightarrow> number \<Rightarrow> DetailState \<Rightarrow> SearchResultWithResolution list" where
  "availableSources currentSource episodeIndex st =
     filter (\<lambda>result. source result \<noteq> currentSource
                \<and> source result \<notin> failedSources st
                \<and> num_less episodeIndex (Num (real (length (episodes result)))))
       (searchResults st)"

text \<open>The function only reads the store: it returns the store as it found it.\<close>

definition getNextAvailableSource ::
  "string \<Rightarrow> number \<Rightarrow> DetailState \<Rightarrow> SearchResultWithResolution option \<times> DetailState" where
  "getNextAvailableSource currentSource episodeIndex st =
     (let available = availableSources currentSource episodeIndex st
      in if length available = 0 then (None, st)
         else (case arraySort compareSources available of
                 selectedSource # _ \<Rightarrow> (Some selectedSource, st)
               | [] \<Rightarrow> (None, st)))"

subsection \<open>processAndSetResults\<close>

text \<open>
  \<open>probe\<close> stands for \<^verbatim>\<open>getResolutionFromM3U8\<close>, which is not part of the store: the
  resolution it finds for a locator, \<open>None\<close> when it gives none or fails.
\<close>

definition attachResolution ::
  "(string \<Rightarrow> string option) \<Rightarrow> SearchResult \<Rightarrow> SearchResultWithResolution" where
  "attachResolution probe r =
     \<lparr>ident = ident r, title = title r, poster = poster r, episodes = episodes r,
      source = source r, source_name = source_name r, class_name = class_name r,
      year = year r, desc = desc r, type_name = type_name r, videoInfo = videoInfo r,
      resolution =
        (case videoInfo r of
           Some vi \<Rightarrow> Some (quality vi)
         | None \<Rightarrow> (case episodes r of [] \<Rightarrow> None | e # _ \<Rightarrow> probe e))\<rparr>"

definition toSourceEntry :: "SearchResultWithResolution \<Rightarrow> SourceEntry" where
  "toSourceEntry r =
     \<lparr>entry_source = source r, entry_source_name = source_name r,
      entry_resolution = resolution r, entry_videoInfo = videoInfo r\<rparr>"

text \<open>
  The update of \<^verbatim>\<open>processAndSetResults\<close>; \<open>aborted\<close> is what \<^verbatim>\<open>signal.aborted\<close> reads
  when the resolutions have arrived.
\<close>

definition processAndSetResults ::
  "(string \<Rightarrow> string option) \<Rightarrow> bool \<Rightarrow> SearchResult list \<Rightarrow> bool \<Rightarrow> DetailState \<Rightarrow> DetailState" where
  "processAndSetResults probe aborted results merge st =
     (let resultsWithResolution = map (attachResolution probe) results
      in if aborted then st
         else
           (let existingSources = set (map source (searchResults st));
                newResults = filter (\<lambda>r. source r \<notin> existingSources) resultsWithResolution;
                finalResults = (if merge then searchResults st @ newResults else resultsWithResolution)
            in st\<lparr>searchResults := finalResults,
                  sources := map toSourceEntry finalResults,
                  detail := (case detail st of
                               Some d \<Rightarrow> Some d
                             | None \<Rightarrow> (case finalResults of [] \<Rightarrow> None | r # _ \<Rightarrow> Some r))\<rparr>))"


section \<open>The API client\<close>

text \<open>
  A request either fails with a message (\<open>Inl\<close>: \<^verbatim>\<open>_fetch\<close> throws) or brings the
  server's answer (\<open>Inr\<close>). \<^verbatim>\<open>searchVideo\<close> keeps the results whose title is the query;
  \<^verbatim>\<open>searchVideos\<close> and \<^verbatim>\<open>getResources\<close> hand the answer on as it is. Only
  \<^verbatim>\<open>searchVideo\<close> and \<^verbatim>\<open>getResources\<close> take an abort signal.
\<close>

record ApiSite =
  key :: string
  api :: string
  name :: string
  site_detail :: "string option"

definition searchVideo :: "string \<Rightarrow> string + SearchResult list \<Rightarrow> string + SearchResult list" where
  "searchVideo query reply =
     (case reply of
        Inl e \<Rightarrow> Inl e
      | Inr results \<Rightarrow> Inr (filter (\<lambda>item. title item = query) results))"

definition searchVideos :: "string \<Rightarrow> string + SearchResult list \<Rightarrow> string + SearchResult list" where
  "searchVideos query reply = reply"

definition getResources :: "string + ApiSite list \<Rightarrow> string + ApiSite list" where
  "getResources reply = reply"

text \<open>The requests of the store to the API client; a number is the signal handed over.\<close>

datatype api_call =
    SearchVideo string string nat
  | SearchVideos string
  | GetResources nat

section \<open>init\<close>

text \<open>
  \<^verbatim>\<open>init\<close> is asynchronous: it runs until it awaits something, and goes on when that has
  settled, with whatever the store holds by then. An invocation is modelled by its
  closure: the signal of its controller, its argument \<open>q\<close>, the settings it read, its two
  local counters, and the point where it waits. The invocations live in a list; the
  position of an invocation is also the address of its \<^verbatim>\<open>AbortController\<close>.

  A continuation is one function on the world, from the point where the awaited promise
  has settled to the next \<^verbatim>\<open>await\<close> or to the return; the return of
  \<^verbatim>\<open>processAndSetResults\<close> to its caller belongs to the same continuation. A promise
  that is rejected settles with \<open>Inl\<close>; all rejections of \<^verbatim>\<open>init\<close> are caught where
  they are awaited, so the outer \<^verbatim>\<open>catch\<close> of \<^verbatim>\<open>init\<close> is never entered.
\<close>

record VideoSource =
  enabledAll :: bool
  enabledKeys :: "string \<Rightarrow> bool"

text \<open>One callback of the fan-out (one per enabled resource).\<close>

datatype task = Searching | Processing "SearchResult list" | Settled

text \<open>
  Where an invocation waits: for the preferred search, for the resolutions of a batch
  (inside \<^verbatim>\<open>processAndSetResults\<close>), for the background or the fallback search, for the
  resources, for the callbacks of the fan-out, for the favorite check; or it has returned.
\<close>

datatype awaiting =
    SearchPreferred
  | ProcessPreferred "SearchResult list"
  | SearchBackground
  | ProcessBackground "SearchResult list"
  | SearchFallback
  | ProcessFallback "SearchResult list"
  | Resources
  | FanOut "task list"
  | Favorite
  | Returned

record InitCall =
  signal_aborted :: bool
  arg_q :: string
  videoSource :: VideoSource
  firstResultFound :: bool
  totalResults :: nat
  awaiting :: awaiting

record World =
  store :: DetailState
  inits :: "InitCall list"
  requests :: "api_call list"

definition initialWorld :: World where
  "initialWorld = \<lparr>store = initialState, inits = [], requests = []\<rparr>"

definition setState :: "(DetailState \<Rightarrow> DetailState) \<Rightarrow> World \<Rightarrow> World" where
  "setState f w = w\<lparr>store := f (store w)\<rparr>"

definition updateInit :: "nat \<Rightarrow> (InitCall \<Rightarrow> InitCall) \<Rightarrow> World \<Rightarrow> World" where
  "updateInit n f w = w\<lparr>inits := (inits w)[n := f (inits w ! n)]\<rparr>"

definition suspend :: "nat \<Rightarrow> awaiting \<Rightarrow> World \<Rightarrow> World" where
  "suspend n a w = updateInit n (\<lambda>c. c\<lparr>awaiting := a\<rparr>) w"

definition request :: "api_call \<Rightarrow> World \<Rightarrow> World" where
  "request c w = w\<lparr>requests := requests w @ [c]\<rparr>"

definition signalAborted :: "nat \<Rightarrow> World \<Rightarrow> bool" where
  "signalAborted n w = signal_aborted (inits w ! n)"

text \<open>\<^verbatim>\<open>abort\<close> (line 440): \<^verbatim>\<open>get().controller?.abort()\<close>.\<close>

definition abort :: "World \<Rightarrow> World" where
  "abort w =
     (case controller (store w) of
        None \<Rightarrow> w
      | Some c \<Rightarrow> updateInit c (\<lambda>i. i\<lparr>signal_aborted := True\<rparr>) w)"

text \<open>
  The start of \<^verbatim>\<open>init\<close>, up to its first request (lines 129 to 146, 210 to 218, 313):
  the old controller is aborted, a new one is made, the store is reset, and the
  preferred search or the request for the resources goes out.
  \<^verbatim>\<open>preferredSource && id\<close> needs both strings to be there and non-empty.
\<close>

definition initStart ::
  "string \<Rightarrow> string option \<Rightarrow> string option \<Rightarrow> VideoSource \<Rightarrow> World \<Rightarrow> World" where
  "initStart query preferredSource idv settings w =
     (let w1 = abort w;
          n = length (inits w1);
          w2 = w1\<lparr>inits := inits w1 @
                 [\<lparr>signal_aborted = False, arg_q = query, videoSource = settings,
                   firstResultFound = False, totalResults = 0, awaiting = Returned\<rparr>]\<rparr>;
          w3 = setState (\<lambda>st. st\<lparr>q := Some query, loading := True, searchResults := [],
                                   detail := None, error := None, allSourcesLoaded := False,
                                   controller := Some n\<rparr>) w2;
          standard = suspend n Resources (request (GetResources n) w3)
      in case (preferredSource, idv) of
           (Some p, Some i) \<Rightarrow>
             if p \<noteq> [] \<and> i \<noteq> []
             then suspend n SearchPreferred (request (SearchVideo query p n) w3)
             else standard
         | _ \<Rightarrow> standard)"

text \<open>The \<^verbatim>\<open>finally\<close> block (lines 422 to 430); the invocation has returned after
  it.\<close>

definition finallyBlock :: "nat \<Rightarrow> World \<Rightarrow> World" where
  "finallyBlock n w =
     suspend n Returned
       (if \<not> signalAborted n w
        then setState (\<lambda>st. st\<lparr>loading := False, allSourcesLoaded := True\<rparr>) w
        else w)"

text \<open>
  The last part of the \<^verbatim>\<open>try\<close> block (lines 385 to 410): the final check, and the
  request for the favorite status when a detail is selected.
\<close>

definition finalCheck :: "nat \<Rightarrow> World \<Rightarrow> World" where
  "finalCheck n w =
     (let finalState = store w;
          w1 = (if length (searchResults finalState) = 0 \<and> error finalState = None
                then setState (\<lambda>st. st\<lparr>error := Some (FinalNotFound (arg_q (inits w ! n)))\<rparr>) w
                else w)
      in case detail finalState of
           Some d \<Rightarrow> suspend n Favorite w1
         | None \<Rightarrow> finallyBlock n w1)"

definition afterFavorite :: "nat \<Rightarrow> string + bool \<Rightarrow> World \<Rightarrow> World" where
  "afterFavorite n reply w =
     finallyBlock n
       (case reply of
          Inr b \<Rightarrow> setState (\<lambda>st. st\<lparr>isFavorited := b\<rparr>) w
        | Inl e \<Rightarrow> w)"

text \<open>
  The end of \<^verbatim>\<open>processAndSetResults\<close>, from the check of the signal on (lines 188 to
  205), for invocation \<open>n\<close>.
\<close>

definition processed ::
  "nat \<Rightarrow> (string \<Rightarrow> string option) \<Rightarrow> SearchResult list \<Rightarrow> bool \<Rightarrow> World \<Rightarrow> World" where
  "processed n probe results merge w =
     setState (processAndSetResults probe (signalAborted n w) results merge) w"

subsection \<open>The preferred source\<close>

text \<open>
  Lines 217 to 306: after the preferred search (lines 219 to 256), after the
  resolutions of its results (lines 238 and 286 to 291), after the background search
  (lines 291 to 305) and the resolutions of its results, after the fallback search
  (lines 256 to 282) and the resolutions of its results (line 268).
\<close>

definition afterSearchPreferred :: "nat \<Rightarrow> string + SearchResult list \<Rightarrow> World \<Rightarrow> World" where
  "afterSearchPreferred n reply w =
     (let query = arg_q (inits w ! n);
          preferredResult = (case searchVideo query reply of Inr results \<Rightarrow> results | Inl e \<Rightarrow> [])
      in if signalAborted n w then finallyBlock n w
         else if length preferredResult > 0 then suspend n (ProcessPreferred preferredResult) w
         else suspend n SearchFallback (request (SearchVideos query) w))"

definition afterProcessPreferred ::
  "nat \<Rightarrow> SearchResult list \<Rightarrow> (string \<Rightarrow> string option) \<Rightarrow> World \<Rightarrow> World" where
  "afterProcessPreferred n preferredResult probe w =
     (let w1 = processed n probe preferredResult False w;
          w2 = setState (\<lambda>st. st\<lparr>loading := False\<rparr>) w1
      in suspend n SearchBackground (request (SearchVideos (arg_q (inits w ! n))) w2))"

definition afterSearchBackground :: "nat \<Rightarrow> string + SearchResult list \<Rightarrow> World \<Rightarrow> World" where
  "afterSearchBackground n reply w =
     (let query = arg_q (inits w ! n)
      in case searchVideos query reply of
           Inl e \<Rightarrow> finalCheck n w
         | Inr allResults \<Rightarrow>
             if signalAborted n w then finallyBlock n w
             else suspend n (ProcessBackground (filter (\<lambda>item. title item = query) allResults)) w)"

definition afterProcessBackground ::
  "nat \<Rightarrow> SearchResult list \<Rightarrow> (string \<Rightarrow> string option) \<Rightarrow> World \<Rightarrow> World" where
  "afterProcessBackground n results probe w = finalCheck n (processed n probe results True w)"

definition afterSearchFallback :: "nat \<Rightarrow> string + SearchResult list \<Rightarrow> World \<Rightarrow> World" where
  "afterSearchFallback n reply w =
     (let query = arg_q (inits w ! n)
      in case searchVideos query reply of
           Inl msg \<Rightarrow>
             finalCheck n
               (setState (\<lambda>st. st\<lparr>error := Some (FallbackFailed msg), loading := False\<rparr>) w)
         | Inr allResults \<Rightarrow>
             (let filteredResults = filter (\<lambda>item. title item = query) allResults
              in if length filteredResults > 0 then suspend n (ProcessFallback filteredResults) w
                 else finalCheck n
                        (setState (\<lambda>st. st\<lparr>error := Some (FallbackNotFound query),
                                               loading := False\<rparr>) w)))"

definition afterProcessFallback ::
  "nat \<Rightarrow> SearchResult list \<Rightarrow> (string \<Rightarrow> string option) \<Rightarrow> World \<Rightarrow> World" where
  "afterProcessFallback n filteredResults probe w =
     (let w1 = processed n probe filteredResults False w;
          w2 = setState (\<lambda>st. st\<lparr>loading := False\<rparr>) w1
      in finalCheck n w2)"

subsection \<open>The standard navigation\<close>

text \<open>
  Lines 312 to 382: after the request for the resources (lines 313 to 340, 375 to 382),
  after the search of one resource (lines 340 to 349, 355 to 360), after the resolutions
  of its results (lines 350 to 354), and after all callbacks (lines 363 to 374).
\<close>

definition afterResources :: "nat \<Rightarrow> string + ApiSite list \<Rightarrow> World \<Rightarrow> World" where
  "afterResources n reply w =
     (let query = arg_q (inits w ! n);
          settings = videoSource (inits w ! n)
      in case getResources reply of
           Inl msg \<Rightarrow>
             finallyBlock n
               (setState (\<lambda>st. st\<lparr>error := Some (ResourcesFailed msg), loading := False\<rparr>) w)
         | Inr allResources \<Rightarrow>
             (let enabledResources =
                    (if enabledAll settings then allResources
                     else filter (\<lambda>r. enabledKeys settings (key r)) allResources)
              in if length enabledResources = 0
                 then finallyBlock n
                        (setState (\<lambda>st. st\<lparr>error := Some NoEnabledResources, loading := False\<rparr>) w)
                 else suspend n (FanOut (map (\<lambda>r. Searching) enabledResources))
                        (foldl (\<lambda>w' r. request (SearchVideo query (key r) n) w') w enabledResources)))"

text \<open>After \<^verbatim>\<open>Promise.all(searchPromises)\<close>.\<close>

definition afterFanOut :: "nat \<Rightarrow> World \<Rightarrow> World" where
  "afterFanOut n w =
     finalCheck n
       (if totalResults (inits w ! n) = 0
        then setState (\<lambda>st. st\<lparr>error := Some (FanOutNotFound (arg_q (inits w ! n))),
                               loading := False\<rparr>) w
        else w)"

text \<open>Callback \<open>i\<close> of the fan-out has run to its end.\<close>

definition settle :: "nat \<Rightarrow> nat \<Rightarrow> World \<Rightarrow> World" where
  "settle n i w =
     (case awaiting (inits w ! n) of
        FanOut tasks \<Rightarrow>
          (let tasks' = tasks[i := Settled];
               w1 = suspend n (FanOut tasks') w
           in if list_all (\<lambda>t. t = Settled) tasks' then afterFanOut n w1 else w1)
      | _ \<Rightarrow> w)"

definition afterTaskSearch :: "nat \<Rightarrow> nat \<Rightarrow> string + SearchResult list \<Rightarrow> World \<Rightarrow> World" where
  "afterTaskSearch n i reply w =
     (case searchVideo (arg_q (inits w ! n)) reply of
        Inl e \<Rightarrow> settle n i w
      | Inr results \<Rightarrow>
          if length results > 0
          then (case awaiting (inits w ! n) of
                  FanOut tasks \<Rightarrow>
                    suspend n (FanOut (tasks[i := Processing results]))
                      (updateInit n (\<lambda>c. c\<lparr>totalResults := totalResults c + length results\<rparr>) w)
                | _ \<Rightarrow> w)
          else settle n i w)"

definition afterTaskProcess ::
  "nat \<Rightarrow> nat \<Rightarrow> SearchResult list \<Rightarrow> (string \<Rightarrow> string option) \<Rightarrow> World \<Rightarrow> World" where
  "afterTaskProcess n i results probe w =
     (let w1 = processed n probe results True w;
          w2 = (if \<not> firstResultFound (inits w1 ! n)
                then updateInit n (\<lambda>c. c\<lparr>firstResultFound := True\<rparr>)
                       (setState (\<lambda>st. st\<lparr>loading := False\<rparr>) w1)
                else w1)
      in settle n i w2)"

subsection \<open>Resuming an invocation\<close>

text \<open>What settles: a search, the resolutions of a batch (with what the probe found),
  the resources, the search or the batch of callback \<open>i\<close>, the favorite check.\<close>

datatype event =
    Reply "string + SearchResult list"
  | Probed "string \<Rightarrow> string option"
  | ResourcesReply "string + ApiSite list"
  | TaskReply nat "string + SearchResult list"
  | TaskProbed nat "string \<Rightarrow> string option"
  | FavoriteReply "string + bool"

fun dispatch :: "nat \<Rightarrow> awaiting \<Rightarrow> event \<Rightarrow> World \<Rightarrow> World" where
  "dispatch n SearchPreferred (Reply r) w = afterSearchPreferred n r w"
| "dispatch n (ProcessPreferred b) (Probed probe) w = afterProcessPreferred n b probe w"
| "dispatch n SearchBackground (Reply r) w = afterSearchBackground n r w"
| "dispatch n (ProcessBackground b) (Probed probe) w = afterProcessBackground n b probe w"
| "dispatch n SearchFallback (Reply r) w = afterSearchFallback n r w"
| "dispatch n (ProcessFallback b) (Probed probe) w = afterProcessFallback n b probe w"
| "dispatch n Resources (ResourcesReply r) w = afterResources n r w"
| "dispatch n (FanOut tasks) (TaskReply i r) w =
     (if i < length tasks \<and> tasks ! i = Searching then afterTaskSearch n i r w else w)"
| "dispatch n (FanOut tasks) (TaskProbed i probe) w =
     (if i < length tasks
      then (case tasks ! i of Processing b \<Rightarrow> afterTaskProcess n i b probe w | _ \<Rightarrow> w)
      else w)"
| "dispatch n Favorite (FavoriteReply r) w = afterFavorite n r w"
| "dispatch n a e w = w"

definition resume :: "nat \<Rightarrow> event \<Rightarrow> World \<Rightarrow> World" where
  "resume n e w = dispatch n (awaiting (inits w ! n)) e w"

subsection \<open>The other operations of the store, and what can happen\<close>

text \<open>
  \<^verbatim>\<open>setDetail\<close> sets the detail and asks for its favorite status, \<^verbatim>\<open>toggleFavorite\<close> asks
  the favorite manager to toggle it; both write the answer into \<open>isFavorited\<close> (lines
  433 to 461).
\<close>

definition setDetail :: "SearchResultWithResolution \<Rightarrow> World \<Rightarrow> World" where
  "setDetail d w = setState (\<lambda>st. st\<lparr>detail := Some d\<rparr>) w"

definition favoriteAnswered :: "bool \<Rightarrow> World \<Rightarrow> World" where
  "favoriteAnswered b w = setState (\<lambda>st. st\<lparr>isFavorited := b\<rparr>) w"

text \<open>
  One step of the whole: a call of an operation of the store, or something an
  invocation of \<^verbatim>\<open>init\<close> waits for settles and the invocation goes on.
\<close>

inductive step :: "World \<Rightarrow> World \<Rightarrow> bool" where
  step_init: "step w (initStart query preferredSource idv settings w)"
| step_resume: "n < length (inits w) \<Longrightarrow> step w (resume n e w)"
| step_abort: "step w (abort w)"
| step_setDetail: "step w (setDetail d w)"
| step_favorite: "step w (favoriteAnswered b w)"
| step_markSourceAsFailed: "step w (setState (markSourceAsFailed src reason) w)"
| step_getNextAvailableSource:
    "step w (setState (\<lambda>st. snd (getNextAvailableSource currentSource episodeIndex st)) w)"

definition reachable :: "World \<Rightarrow> bool" where
  "reachable w = step\<^sup>*\<^sup>* initialWorld w"

section \<open>Notions for the statements, and example data\<close>

text \<open>
  The sum of three scores with the weights 0.4, 0.4 and 0.2, rounded to two decimal
  places, as \<^verbatim>\<open>calculateVideoScore\<close> computes it from its three local scores.
\<close>

definition finalScore :: "number \<Rightarrow> number \<Rightarrow> number \<Rightarrow> number" where
  "finalScore qs sp ps =
     (let score = Num 0;
          score = num_add score (num_mult qs (toNumber (4 / 10)));
          score = num_add score (num_mult sp (toNumber (4 / 10)));
          score = num_add score (num_mult ps (toNumber (2 / 10)))
      in num_div (math_round (num_mult score (Num 100))) (Num 100))"

text \<open>One score is not below another: the comparison \<^verbatim>\<open><=\<close> holds, or both are
  \<^verbatim>\<open>NaN\<close>.\<close>

definition notBelow :: "number \<Rightarrow> number \<Rightarrow> bool" where
  "notBelow b a \<longleftrightarrow> num_le a b \<or> (a = NaN \<and> b = NaN)"

text \<open>The same sum for three finite scores, as a real number: every operation rounds.\<close>

definition roundedSum :: "real \<Rightarrow> real \<Rightarrow> real \<Rightarrow> real" where
  "roundedSum a b c =
     (let score = fl (0 + fl (a * fl (4 / 10)));
          score = fl (score + fl (b * fl (4 / 10)));
          score = fl (score + fl (c * fl (2 / 10)))
      in fl (of_int \<lfloor>fl (score * 100) + 1 / 2\<rfloor> / 100))"








text \<open>Search results for the title \<open>X\<close>: from a source, with a number of episodes.\<close>

definition result :: "string \<Rightarrow> int \<Rightarrow> nat \<Rightarrow> VideoInfo option \<Rightarrow> SearchResult" where
  "result src i n vi =
     \<lparr>ident = i, title = ''X'', poster = [], episodes = replicate n ''u'', source = src,
      source_name = src, class_name = None, year = ''2020'', desc = None, type_name = None,
      videoInfo = vi\<rparr>"

definition candidate ::
  "string \<Rightarrow> nat \<Rightarrow> VideoInfo option \<Rightarrow> string option \<Rightarrow> SearchResultWithResolution" where
  "candidate src n vi res =
     \<lparr>ident = 1, title = ''X'', poster = [], episodes = replicate n ''u'', source = src,
      source_name = src, class_name = None, year = ''2020'', desc = None, type_name = None,
      videoInfo = vi, resolution = res\<rparr>"

text \<open>Measurements of score 80, 90, 100 and 38.\<close>

definition info80 :: VideoInfo where
  "info80 = \<lparr>quality = ''4K'', loadSpeed = ''5 MB/s'', pingTime = Num 1000\<rparr>"

definition info90 :: VideoInfo where
  "info90 = \<lparr>quality = ''4K'', loadSpeed = ''5 MB/s'', pingTime = Num 525\<rparr>"




text \<open>The scenario of the specification: \<open>B\<close> plays, \<open>A\<close> has five episodes and score 80,
  \<open>C\<close> three episodes and score 90.\<close>

definition scenarioState :: DetailState where
  "scenarioState = initialState\<lparr>searchResults :=
      [candidate ''B'' 9 None None,
       candidate ''A'' 5 (Some info80) (Some ''4K''),
       candidate ''C'' 3 (Some info90) (Some ''4K'')]\<rparr>"


definition plainState :: DetailState where
  "plainState = initialState\<lparr>searchResults :=
      [candidate ''B'' 9 None (Some ''720p''),
       candidate ''A'' 5 None (Some ''1080p''),
       candidate ''C'' 3 None None],
     failedSources := {''D''}\<rparr>"

text \<open>A store in which the only other source has no episode at all.\<close>

definition emptyState :: DetailState where
  "emptyState = initialState\<lparr>searchResults :=
      [candidate ''B'' 9 None (Some ''720p''), candidate ''A'' 0 None (Some ''1080p'')]\<rparr>"

definition noProbe :: "string \<Rightarrow> string option" where
  "noProbe url = None"

definition allEnabled :: VideoSource where
  "allEnabled = \<lparr>enabledAll = True, enabledKeys = (\<lambda>k. True)\<rparr>"

text \<open>A world in which the source \<open>A\<close> has been marked as failed.\<close>

definition failedWorld :: World where
  "failedWorld = setState (markSourceAsFailed ''A'' ''timeout'') initialWorld"

text \<open>
  A run of \<^verbatim>\<open>init\<close> with a preferred source in which nothing else happens: the preferred
  search settles with \<open>reply1\<close> (\<open>preferredSearched\<close>), the search of all sources with
  \<open>reply2\<close> (\<open>preferredAnswered\<close>), then the resolutions of the batch arrive
  (\<open>preferredProcessed\<close>), and last the favorite check settles (\<open>preferredRun\<close>). (An
  invocation passes over what it does not wait for.)
\<close>

definition preferredSearched ::
  "string \<Rightarrow> string \<Rightarrow> string \<Rightarrow> VideoSource \<Rightarrow> string + SearchResult list \<Rightarrow> World \<Rightarrow> World" where
  "preferredSearched query p idv settings reply1 w =
     resume (length (inits w)) (Reply reply1) (initStart query (Some p) (Some idv) settings w)"

definition preferredAnswered ::
  "string \<Rightarrow> string \<Rightarrow> string \<Rightarrow> VideoSource \<Rightarrow> string + SearchResult list \<Rightarrow>
   string + SearchResult list \<Rightarrow> World \<Rightarrow> World" where
  "preferredAnswered query p idv settings reply1 reply2 w =
     resume (length (inits w)) (Reply reply2) (preferredSearched query p idv settings reply1 w)"

definition preferredProcessed ::
  "string \<Rightarrow> string \<Rightarrow> string \<Rightarrow> VideoSource \<Rightarrow> string + SearchResult list \<Rightarrow>
   string + SearchResult list \<Rightarrow> (string \<Rightarrow> string option) \<Rightarrow> World \<Rightarrow> World" where
  "preferredProcessed query p idv settings reply1 reply2 probe w =
     (let n = length (inits w);
          w2 = preferredSearched query p idv settings reply1 w;
          w3 = resume n (Reply reply2) w2
      in resume n (Probed probe) w3)"

definition preferredRun ::
  "string \<Rightarrow> string \<Rightarrow> string \<Rightarrow> VideoSource \<Rightarrow> string + SearchResult list \<Rightarrow>
   string + SearchResult list \<Rightarrow> (string \<Rightarrow> string option) \<Rightarrow> string + bool \<Rightarrow> World \<Rightarrow> World" where
  "preferredRun query p idv settings reply1 reply2 probe fav w =
     resume (length (inits w)) (FavoriteReply fav)
       (preferredProcessed query p idv settings reply1 reply2 probe w)"

text \<open>A result from some source whose title is not \<open>X\<close>, and a resource.\<close>

definition otherResult :: "string \<Rightarrow> SearchResult" where
  "otherResult src = (result src 9 3 None)\<lparr>title := ''XY''\<rparr>"

definition site :: "string \<Rightarrow> ApiSite" where
  "site k = \<lparr>key = k, api = ''https://example.org/api'', name = k, site_detail = None\<rparr>"

text \<open>
  Two histories in which a search for \<open>X\<close> is overtaken by a search for \<open>Y\<close>. In
  the first the search for \<open>X\<close> has a preferred source, which found nothing, and waits
  for the search of all sources; in the second it has none and waits for the search of
  the one resource there is.
\<close>

definition overtakenFallback :: World where
  "overtakenFallback =
     initStart ''Y'' (Some ''A'') (Some ''2'') allEnabled
       (resume 0 (Reply (Inr []))
          (initStart ''X'' (Some ''A'') (Some ''1'') allEnabled initialWorld))"

definition overtakenFanOut :: World where
  "overtakenFanOut =
     initStart ''Y'' None None allEnabled
       (resume 0 (ResourcesReply (Inr [site ''A'']))
          (initStart ''X'' None None allEnabled initialWorld))"

text \<open>
  What holds of every world the store can get into. The results the store holds have
  the title the store searches for. An invocation of \<^verbatim>\<open>init\<close> whose signal is not
  aborted is the one whose controller the store holds, and the store searches for its
  \<open>q\<close>. A batch an invocation is working on has the title of its \<open>q\<close>.
\<close>

definition titled :: "string \<Rightarrow> SearchResult list \<Rightarrow> bool" where
  "titled query batch = list_all (\<lambda>r. title r = query) batch"

definition batchTitled :: "string \<Rightarrow> awaiting \<Rightarrow> bool" where
  "batchTitled query a =
     (case a of
        ProcessPreferred b \<Rightarrow> titled query b
      | ProcessBackground b \<Rightarrow> titled query b
      | ProcessFallback b \<Rightarrow> titled query b
      | FanOut tasks \<Rightarrow>
          list_all (\<lambda>t. case t of Processing b \<Rightarrow> titled query b | _ \<Rightarrow> True) tasks
      | _ \<Rightarrow> True)"

definition resultsTitled :: "World \<Rightarrow> bool" where
  "resultsTitled w = list_all (\<lambda>c. q (store w) = Some (title c)) (searchResults (store w))"

definition oneLive :: "World \<Rightarrow> bool" where
  "oneLive w =
     (\<forall>n < length (inits w). \<not> signal_aborted (inits w ! n) \<longrightarrow>
         controller (store w) = Some n \<and> q (store w) = Some (arg_q (inits w ! n)))"

definition batchesTitled :: "World \<Rightarrow> bool" where
  "batchesTitled w = list_all (\<lambda>i. batchTitled (arg_q i) (awaiting i)) (inits w)"

definition invariant :: "World \<Rightarrow> bool" where
  "invariant w \<longleftrightarrow> resultsTitled w \<and> oneLive w \<and> batchesTitled w"


definition fallbackFiltered :: World where
  "fallbackFiltered =
     preferredRun ''X'' ''A'' ''1'' allEnabled (Inr [otherResult ''A''])
       (Inr [result ''B'' 1 3 None, otherResult ''D'', result ''C'' 2 3 None]) noProbe
       (Inr False) initialWorld"


text \<open>The same scenario when the search of all sources fails.\<close>

definition fallbackFailed :: World where
  "fallbackFailed =
     preferredRun ''X'' ''A'' ''1'' allEnabled (Inr []) (Inl ''Request timeout'') noProbe
       (Inr False) initialWorld"

text \<open>Invocation \<open>n\<close> waits at a point, its signal is not aborted and its \<open>q\<close> is the query.\<close>

definition waits :: "nat \<Rightarrow> string \<Rightarrow> awaiting \<Rightarrow> World \<Rightarrow> bool" where
  "waits n query a w \<longleftrightarrow>
     n < length (inits w) \<and> awaiting (inits w ! n) = a \<and> \<not> signal_aborted (inits w ! n)
     \<and> arg_q (inits w ! n) = query"

text \<open>An update of the store that leaves the query, the controller and the results.\<close>

definition keeps :: "(DetailState \<Rightarrow> DetailState) \<Rightarrow> bool" where
  "keeps f \<longleftrightarrow> (\<forall>st. q (f st) = q st \<and> controller (f st) = controller st
                      \<and> searchResults (f st) = searchResults st)"


section \<open>Rounding\<close>

lemma pow2_powr: "pow2 e = 2 powr (real_of_int e)"
proof (cases "0 \<le> e")
  case True
  then show ?thesis by (simp add: pow2_def powr_realpow [symmetric])
next
  case False
  hence "real_of_int e = - real (nat (- e))" by simp
  then show ?thesis using False
    by (simp add: pow2_def powr_minus powr_realpow [symmetric] field_simps del: of_nat_nat)
qed

lemma pow2_pos [simp]: "0 < pow2 e"
  by (simp add: pow2_powr)

lemma pow2_nonneg [simp]: "0 \<le> pow2 e"
  by (simp add: pow2_powr)

lemma pow2_not_less [simp]: "\<not> pow2 e < 0"
  by (simp add: pow2_powr)

lemma pow2_not_le [simp]: "\<not> pow2 e \<le> 0"
  by (simp add: pow2_powr)

lemma pow2_neq0 [simp]: "pow2 e \<noteq> 0"
  by (simp add: pow2_powr)

lemma pow2_add: "pow2 (a + b) = pow2 a * pow2 b"
  by (simp add: pow2_powr powr_add)

lemma pow2_mono: "a \<le> b \<Longrightarrow> pow2 a \<le> pow2 b"
  by (simp add: pow2_powr)

lemma pow2_less_iff: "pow2 a < pow2 b \<longleftrightarrow> a < b"
  by (simp add: pow2_powr)

lemma pow2_nat: "pow2 (int n) = 2 ^ n"
  by (simp add: pow2_def)

lemma roundTiesToEven_cases:
  "roundTiesToEven r = \<lfloor>r\<rfloor> \<and> r - of_int \<lfloor>r\<rfloor> \<le> 1 / 2
   \<or> roundTiesToEven r = \<lfloor>r\<rfloor> + 1 \<and> 1 / 2 \<le> r - of_int \<lfloor>r\<rfloor>"
  by (auto simp: roundTiesToEven_def Let_def)

lemma roundTiesToEven_le: "r \<le> of_int n \<Longrightarrow> roundTiesToEven r \<le> n"
  using roundTiesToEven_cases [of r] by linarith

lemma roundTiesToEven_ge: "of_int n \<le> r \<Longrightarrow> n \<le> roundTiesToEven r"
  using roundTiesToEven_cases [of r] by linarith

lemma roundTiesToEven_mono:
  assumes "r \<le> s"
  shows "roundTiesToEven r \<le> roundTiesToEven s"
proof (cases "\<lfloor>r\<rfloor> = \<lfloor>s\<rfloor>")
  case True
  then show ?thesis using assms by (auto simp: roundTiesToEven_def Let_def)
next
  case False
  hence "\<lfloor>r\<rfloor> + 1 \<le> \<lfloor>s\<rfloor>" using floor_mono [OF assms] by simp
  moreover have "roundTiesToEven r \<le> \<lfloor>r\<rfloor> + 1"
    using roundTiesToEven_cases [of r] by linarith
  moreover have "\<lfloor>s\<rfloor> \<le> roundTiesToEven s"
    using roundTiesToEven_cases [of s] by linarith
  ultimately show ?thesis by linarith
qed

lemma roundTiesToEven_le_twice:
  assumes "0 \<le> r"
  shows "real_of_int (roundTiesToEven r) \<le> 2 * r"
proof (cases "r < 1 / 2")
  case True
  hence "\<lfloor>r\<rfloor> = 0" using assms by linarith
  then show ?thesis using True assms by (simp add: roundTiesToEven_def Let_def)
next
  case False
  then show ?thesis using roundTiesToEven_cases [of r] by linarith
qed

lemma exponent_bounds:
  "0 < x \<Longrightarrow> pow2 (exponent x) \<le> x \<and> x < pow2 (exponent x + 1)"
proof (induction x rule: exponent.induct)
  case (1 x)
  show ?case
  proof (cases "x < 1")
    case True
    have e: "exponent x = exponent (2 * x) - 1"
      using True 1(3) by (subst exponent.simps) simp
    have ih: "pow2 (exponent (2 * x)) \<le> 2 * x \<and> 2 * x < pow2 (exponent (2 * x) + 1)"
      using 1(1) [of] True 1(3) by simp
    have "pow2 (exponent (2 * x)) = pow2 (exponent x) * 2"
      using pow2_add [of "exponent x" 1] by (simp add: e pow2_def)
    moreover have "pow2 (exponent (2 * x) + 1) = pow2 (exponent x + 1) * 2"
      using pow2_add [of "exponent x + 1" 1] by (simp add: e pow2_def)
    ultimately show ?thesis using ih by simp
  next
    case False
    show ?thesis
    proof (cases "2 \<le> x")
      case True
      have e: "exponent x = exponent (x / 2) + 1"
        using True False 1(3) by (subst exponent.simps) simp
      have ih: "pow2 (exponent (x / 2)) \<le> x / 2 \<and> x / 2 < pow2 (exponent (x / 2) + 1)"
        using 1(2) True False 1(3) by simp
      have "pow2 (exponent x) = pow2 (exponent (x / 2)) * 2"
        using pow2_add [of "exponent (x / 2)" 1] by (simp add: e pow2_def)
      moreover have "pow2 (exponent x + 1) = pow2 (exponent (x / 2) + 1) * 2"
        using pow2_add [of "exponent (x / 2) + 1" 1] by (simp add: e pow2_def)
      ultimately show ?thesis using ih by simp
    next
      case nt: False
      have "exponent x = 0" using False nt 1(3) by (subst exponent.simps) simp
      then show ?thesis using False nt by (simp add: pow2_def)
    qed
  qed
qed

lemma exponent_mono:
  assumes "0 < x" "x \<le> y"
  shows "exponent x \<le> exponent y"
proof -
  have "pow2 (exponent x) < pow2 (exponent y + 1)"
    using exponent_bounds [of x] exponent_bounds [of y] assms by linarith
  thus ?thesis by (simp add: pow2_less_iff)
qed

text \<open>The unit in the last place at \<open>x\<close>.\<close>

lemma fl_eq: "fl x = of_int (roundTiesToEven (x / pow2 (max (exponent \<bar>x\<bar>) (- 1022) - 52)))
                 * pow2 (max (exponent \<bar>x\<bar>) (- 1022) - 52)"
  by (simp add: fl_def Let_def)

lemma fl_zero [simp]: "fl 0 = 0"
  by (simp add: fl_eq roundTiesToEven_def)

lemma fl_nonneg: "0 \<le> x \<Longrightarrow> 0 \<le> fl x"
proof -
  assume "0 \<le> x"
  hence "of_int 0 \<le> x / pow2 (max (exponent \<bar>x\<bar>) (- 1022) - 52)" by simp
  hence "0 \<le> roundTiesToEven (x / pow2 (max (exponent \<bar>x\<bar>) (- 1022) - 52))"
    by (rule roundTiesToEven_ge)
  thus ?thesis by (simp add: fl_eq)
qed


lemma fl_le_twice:
  assumes "0 \<le> x"
  shows "fl x \<le> 2 * x"
proof -
  let ?u = "pow2 (max (exponent \<bar>x\<bar>) (- 1022) - 52)"
  have "real_of_int (roundTiesToEven (x / ?u)) \<le> 2 * (x / ?u)"
    using assms by (intro roundTiesToEven_le_twice) simp
  hence "real_of_int (roundTiesToEven (x / ?u)) * ?u \<le> 2 * (x / ?u) * ?u"
    by (intro mult_right_mono) simp_all
  thus ?thesis by (simp add: fl_eq)
qed

lemma fl_mono:
  assumes "0 \<le> x" "x \<le> y"
  shows "fl x \<le> fl y"
proof (cases "x = 0")
  case True
  then show ?thesis using fl_nonneg [of y] assms by simp
next
  case False
  hence px: "0 < x" and py: "0 < y" using assms by simp_all
  let ?ex = "max (exponent \<bar>x\<bar>) (- 1022)"
  let ?ey = "max (exponent \<bar>y\<bar>) (- 1022)"
  have le: "?ex \<le> ?ey" using exponent_mono [OF px assms(2)] px py by simp
  show ?thesis
  proof (cases "?ex = ?ey")
    case True
    have "x / pow2 (?ey - 52) \<le> y / pow2 (?ey - 52)"
      using assms by (simp add: divide_right_mono)
    hence "roundTiesToEven (x / pow2 (?ey - 52)) \<le> roundTiesToEven (y / pow2 (?ey - 52))"
      by (rule roundTiesToEven_mono)
    hence "real_of_int (roundTiesToEven (x / pow2 (?ey - 52))) * pow2 (?ey - 52)
           \<le> real_of_int (roundTiesToEven (y / pow2 (?ey - 52))) * pow2 (?ey - 52)"
      by (intro mult_right_mono) simp_all
    thus ?thesis unfolding fl_eq True .
  next
    case neq: False
    have "a + 1 \<le> b" if "a \<le> b" "a \<noteq> b" for a b :: int using that by simp
    from this [OF le neq] have lt: "?ex + 1 \<le> ?ey" .
    hence ey: "?ey = exponent y" using py by (simp add: max_def split: if_splits)
    have "x < pow2 (exponent x + 1)" using exponent_bounds [OF px] by simp
    also have "\<dots> \<le> pow2 (?ex + 1)" using px by (intro pow2_mono) simp
    finally have "x < pow2 (?ex + 1)" .
    moreover have "pow2 (?ex + 1) = 2 ^ 53 * pow2 (?ex - 52)"
      using pow2_add [of 53 "?ex - 52"] by (simp add: pow2_def algebra_simps)
    ultimately have "x / pow2 (?ex - 52) \<le> of_int (2 ^ 53)"
      by (simp add: pos_divide_le_eq)
    hence "roundTiesToEven (x / pow2 (?ex - 52)) \<le> 2 ^ 53" by (rule roundTiesToEven_le)
    hence "real_of_int (roundTiesToEven (x / pow2 (?ex - 52))) \<le> 2 ^ 53"
      by (metis of_int_le_iff of_int_numeral of_int_power)
    hence "fl x \<le> 2 ^ 53 * pow2 (?ex - 52)"
      unfolding fl_eq by (intro mult_right_mono) simp_all
    also have "\<dots> = pow2 (?ex + 1)"
      using pow2_add [of 53 "?ex - 52"] by (simp add: pow2_def algebra_simps)
    also have "\<dots> \<le> pow2 ?ey" using lt by (rule pow2_mono)
    finally have a: "fl x \<le> pow2 ?ey" .
    have "pow2 ?ey \<le> y" using exponent_bounds [OF py] ey by simp
    moreover have "pow2 ?ey = 2 ^ 52 * pow2 (?ey - 52)"
      using pow2_add [of 52 "?ey - 52"] by (simp add: pow2_def algebra_simps)
    ultimately have "of_int (2 ^ 52) \<le> y / pow2 (?ey - 52)"
      by (simp add: pos_le_divide_eq)
    hence "2 ^ 52 \<le> roundTiesToEven (y / pow2 (?ey - 52))" by (rule roundTiesToEven_ge)
    hence "2 ^ 52 \<le> real_of_int (roundTiesToEven (y / pow2 (?ey - 52)))"
      by (metis of_int_le_iff of_int_numeral of_int_power)
    hence "2 ^ 52 * pow2 (?ey - 52) \<le> fl y"
      unfolding fl_eq by (intro mult_right_mono) simp_all
    hence "pow2 ?ey \<le> fl y"
      using pow2_add [of 52 "?ey - 52"] by (simp add: pow2_def algebra_simps)
    thus ?thesis using a by linarith
  qed
qed




lemma toNumber_Num:
  assumes "0 \<le> r" "r < pow2 1023"
  shows "toNumber r = Num (fl r)"
proof -
  have "fl r \<le> 2 * r" using assms(1) by (rule fl_le_twice)
  moreover have "pow2 1024 = 2 * pow2 1023" using pow2_add [of 1 1023] by (simp add: pow2_def)
  ultimately have "fl r < pow2 1024" using assms(2) by linarith
  moreover have "- pow2 1024 < fl r" using fl_nonneg [OF assms(1)] pow2_pos [of 1024] by linarith
  ultimately show ?thesis by (simp add: toNumber_def Let_def)
qed

section \<open>The video score\<close>

lemmas number_defs = toNumber_def fl_def Let_def exponent.simps pow2_def roundTiesToEven_def
  num_add_def num_sub_def num_neg_def num_mult_def num_div_def num_less_def num_le_def
  math_min_def math_round_def signedInfinity_def

lemmas scorer_defs = calculateVideoScore_def speedScore_def speedKBps_def matchSpeed_def
  parseFloat_def is_digit_or_dot_def is_digit_def is_space_def is_space2_def is_space3_def
  label_unknown_def
  label_measuring_def digits_val_def digit_val_def maxSpeed_def pingScore_def

subsection \<open>Arithmetic on small numbers\<close>

lemma toNumber_cases:
  assumes "0 \<le> r"
  shows "toNumber r = Infinity \<or> (toNumber r = Num (fl r) \<and> 0 \<le> fl r \<and> fl r < pow2 1024)"
  using fl_nonneg [OF assms] pow2_pos [of 1024]
  by (simp add: toNumber_def Let_def not_le)

lemma fl_small: "0 \<le> x \<Longrightarrow> x \<le> b \<Longrightarrow> 0 \<le> fl x \<and> fl x \<le> 2 * b"
  using fl_nonneg [of x] fl_le_twice [of x] by linarith

lemma small_pow2: "x \<le> 2 ^ 80 \<Longrightarrow> x < pow2 1023"
proof -
  have "(2::real) ^ 80 < pow2 1023" by (simp add: pow2_def)
  thus "x \<le> 2 ^ 80 \<Longrightarrow> x < pow2 1023" by linarith
qed

lemma num_mult_small:
  assumes "0 \<le> x" "x \<le> 2 ^ 40" "0 \<le> y" "y \<le> 2 ^ 40"
  shows "num_mult (Num x) (Num y) = Num (fl (x * y))"
proof -
  have "x * y \<le> 2 ^ 40 * 2 ^ 40" using assms by (intro mult_mono) simp_all
  hence "x * y < pow2 1023" by (intro small_pow2) simp
  thus ?thesis using assms by (simp add: num_mult_def toNumber_Num)
qed

lemma num_add_small:
  assumes "0 \<le> x" "x \<le> 2 ^ 40" "0 \<le> y" "y \<le> 2 ^ 40"
  shows "num_add (Num x) (Num y) = Num (fl (x + y))"
proof -
  have "x + y \<le> 2 ^ 80" using assms by simp
  hence "x + y < pow2 1023" by (rule small_pow2)
  thus ?thesis using assms by (simp add: num_add_def toNumber_Num)
qed

lemma num_div_small:
  assumes "0 \<le> x" "x \<le> 2 ^ 40" "1 \<le> y"
  shows "num_div (Num x) (Num y) = Num (fl (x / y))"
proof -
  have "x / y \<le> x / 1" using assms by (intro divide_left_mono) simp_all
  hence "x / y \<le> 2 ^ 80" using assms by simp
  hence "x / y < pow2 1023" by (rule small_pow2)
  thus ?thesis using assms by (simp add: num_div_def toNumber_Num)
qed

lemma num_NaN [simp]:
  "num_add a NaN = NaN" "num_add NaN b = NaN" "num_mult a NaN = NaN" "num_mult NaN b = NaN"
  "num_div NaN b = NaN" "num_div a NaN = NaN" "math_round NaN = NaN" "num_sub a NaN = NaN"
  "num_sub NaN b = NaN" "math_min NaN b = NaN" "math_min a NaN = NaN"
  by (simp_all add: num_add_def num_mult_def num_div_def math_round_def num_sub_def num_neg_def
      math_min_def split: number.splits)

lemma fl_consts:
  "fl 1 = 1" "fl 100 = 100" "fl 950 = 950"
  by (simp_all add: fl_def Let_def exponent.simps pow2_def roundTiesToEven_def)

lemma weights:
  "toNumber (4 / 10) = Num (fl (4 / 10))" "0 \<le> fl (4 / 10)" "fl (4 / 10) \<le> 1"
  "toNumber (2 / 10) = Num (fl (2 / 10))" "0 \<le> fl (2 / 10)" "fl (2 / 10) \<le> 1"
proof -
  show "toNumber (4 / 10) = Num (fl (4 / 10))" by (rule toNumber_Num) (simp_all add: pow2_def)
  show "toNumber (2 / 10) = Num (fl (2 / 10))" by (rule toNumber_Num) (simp_all add: pow2_def)
  show "0 \<le> fl (4 / 10)" "0 \<le> fl (2 / 10)" by (rule fl_nonneg, simp)+
  show "fl (4 / 10) \<le> 1" using fl_le_twice [of "4 / 10"] by simp
  show "fl (2 / 10) \<le> 1" using fl_le_twice [of "2 / 10"] by simp
qed

subsection \<open>The sum of the three scores\<close>

lemma calculateVideoScore_finalScore:
  "calculateVideoScore v =
     finalScore (qualityScore (quality v)) (speedScore (loadSpeed v)) (pingScore (pingTime v))"
  by (simp add: calculateVideoScore_def finalScore_def)

lemma finalScore_NaN [simp]: "finalScore qs NaN ps = NaN" "finalScore qs sp NaN = NaN"
  by (simp_all add: finalScore_def)

lemma finalScore_Num:
  assumes "0 \<le> a" "a \<le> 1024" "0 \<le> b" "b \<le> 1024" "0 \<le> c" "c \<le> 1024"
  shows "finalScore (Num a) (Num b) (Num c) = Num (roundedSum a b c)"
proof -
  define t1 where "t1 = fl (a * fl (4 / 10))"
  define s1 where "s1 = fl (0 + t1)"
  define t2 where "t2 = fl (b * fl (4 / 10))"
  define s2 where "s2 = fl (s1 + t2)"
  define t3 where "t3 = fl (c * fl (2 / 10))"
  define s3 where "s3 = fl (s2 + t3)"
  define p where "p = fl (s3 * 100)"
  define n where "n = real_of_int \<lfloor>p + 1 / 2\<rfloor>"
  have prod: "0 \<le> x * w \<and> x * w \<le> 1024" if "0 \<le> x" "x \<le> 1024" "0 \<le> w" "w \<le> 1" for x w :: real
    using mult_mono [of x 1024 w 1] that by simp
  have t1: "0 \<le> t1 \<and> t1 \<le> 2 ^ 11"
    unfolding t1_def using fl_small [of "a * fl (4 / 10)" 1024] prod [OF assms(1,2) weights(2,3)]
    by simp
  have t2: "0 \<le> t2 \<and> t2 \<le> 2 ^ 11"
    unfolding t2_def using fl_small [of "b * fl (4 / 10)" 1024] prod [OF assms(3,4) weights(2,3)]
    by simp
  have t3: "0 \<le> t3 \<and> t3 \<le> 2 ^ 11"
    unfolding t3_def using fl_small [of "c * fl (2 / 10)" 1024] prod [OF assms(5,6) weights(5,6)]
    by simp
  have s1: "0 \<le> s1 \<and> s1 \<le> 2 ^ 12"
    unfolding s1_def using fl_small [of "0 + t1" "2 ^ 11"] t1 by simp
  have s2: "0 \<le> s2 \<and> s2 \<le> 2 ^ 14"
    unfolding s2_def using fl_small [of "s1 + t2" "2 ^ 13"] s1 t2 by simp
  have s3: "0 \<le> s3 \<and> s3 \<le> 2 ^ 16"
    unfolding s3_def using fl_small [of "s2 + t3" "2 ^ 15"] s2 t3 by simp
  have p: "0 \<le> p \<and> p \<le> 2 ^ 24"
    unfolding p_def using fl_small [of "s3 * 100" "2 ^ 23"] s3 by simp
  have n: "0 \<le> n \<and> n \<le> 2 ^ 25"
  proof -
    have "0 \<le> \<lfloor>p + 1 / 2\<rfloor>" using p by simp
    moreover have "real_of_int \<lfloor>p + 1 / 2\<rfloor> \<le> p + 1 / 2" by (rule of_int_floor_le)
    ultimately show ?thesis unfolding n_def using p by simp
  qed
  have e1: "num_mult (Num a) (toNumber (4 / 10)) = Num t1"
    unfolding t1_def weights(1) using assms weights by (intro num_mult_small) simp_all
  have e2: "num_add (Num 0) (Num t1) = Num s1"
    unfolding s1_def using t1 by (intro num_add_small) simp_all
  have e3: "num_mult (Num b) (toNumber (4 / 10)) = Num t2"
    unfolding t2_def weights(1) using assms weights by (intro num_mult_small) simp_all
  have e4: "num_add (Num s1) (Num t2) = Num s2"
    unfolding s2_def using s1 t2 by (intro num_add_small) simp_all
  have e5: "num_mult (Num c) (toNumber (2 / 10)) = Num t3"
    unfolding t3_def weights(4) using assms weights by (intro num_mult_small) simp_all
  have e6: "num_add (Num s2) (Num t3) = Num s3"
    unfolding s3_def using s2 t3 by (intro num_add_small) simp_all
  have e7: "num_mult (Num s3) (Num 100) = Num p"
    unfolding p_def using s3 by (intro num_mult_small) simp_all
  have e8: "math_round (Num p) = Num n"
    by (simp add: math_round_def n_def)
  have e9: "num_div (Num n) (Num 100) = Num (fl (n / 100))"
    using n by (intro num_div_small) simp_all
  have "finalScore (Num a) (Num b) (Num c) = Num (fl (n / 100))"
    unfolding finalScore_def Let_def e1 e2 e3 e4 e5 e6 e7 e8 e9 ..
  moreover have "roundedSum a b c = fl (n / 100)"
    by (simp add: roundedSum_def Let_def n_def p_def s3_def t3_def s2_def t2_def s1_def t1_def)
  ultimately show ?thesis by simp
qed

lemma roundedSum_mono:
  assumes "0 \<le> a" "a \<le> a'" "0 \<le> b" "b \<le> b'" "0 \<le> c" "c \<le> c'"
  shows "roundedSum a b c \<le> roundedSum a' b' c'"
proof -
  have w4: "0 \<le> fl (4 / 10)" and w2: "0 \<le> fl (2 / 10)" by (rule weights)+
  have t1: "0 \<le> fl (a * fl (4 / 10))" "fl (a * fl (4 / 10)) \<le> fl (a' * fl (4 / 10))"
    using assms w4 by (auto intro!: fl_nonneg fl_mono mult_right_mono)
  have t2: "0 \<le> fl (b * fl (4 / 10))" "fl (b * fl (4 / 10)) \<le> fl (b' * fl (4 / 10))"
    using assms w4 by (auto intro!: fl_nonneg fl_mono mult_right_mono)
  have t3: "0 \<le> fl (c * fl (2 / 10))" "fl (c * fl (2 / 10)) \<le> fl (c' * fl (2 / 10))"
    using assms w2 by (auto intro!: fl_nonneg fl_mono mult_right_mono)
  have s1: "0 \<le> fl (0 + fl (a * fl (4 / 10)))"
    "fl (0 + fl (a * fl (4 / 10))) \<le> fl (0 + fl (a' * fl (4 / 10)))"
    using t1 by (auto intro!: fl_nonneg fl_mono)
  have s2: "0 \<le> fl (fl (0 + fl (a * fl (4 / 10))) + fl (b * fl (4 / 10)))"
    "fl (fl (0 + fl (a * fl (4 / 10))) + fl (b * fl (4 / 10)))
     \<le> fl (fl (0 + fl (a' * fl (4 / 10))) + fl (b' * fl (4 / 10)))"
    using s1 t2 by (auto intro!: fl_nonneg fl_mono add_mono)
  have s3: "0 \<le> fl (fl (fl (0 + fl (a * fl (4 / 10))) + fl (b * fl (4 / 10))) + fl (c * fl (2 / 10)))"
    "fl (fl (fl (0 + fl (a * fl (4 / 10))) + fl (b * fl (4 / 10))) + fl (c * fl (2 / 10)))
     \<le> fl (fl (fl (0 + fl (a' * fl (4 / 10))) + fl (b' * fl (4 / 10))) + fl (c' * fl (2 / 10)))"
    using s2 t3 by (auto intro!: fl_nonneg fl_mono add_mono)
  have p: "0 \<le> fl (fl (fl (fl (0 + fl (a * fl (4 / 10))) + fl (b * fl (4 / 10))) + fl (c * fl (2 / 10))) * 100)"
    "fl (fl (fl (fl (0 + fl (a * fl (4 / 10))) + fl (b * fl (4 / 10))) + fl (c * fl (2 / 10))) * 100)
     \<le> fl (fl (fl (fl (0 + fl (a' * fl (4 / 10))) + fl (b' * fl (4 / 10))) + fl (c' * fl (2 / 10))) * 100)"
    using s3 by (auto intro!: fl_nonneg fl_mono)
  have n: "\<lfloor>fl (fl (fl (fl (0 + fl (a * fl (4 / 10))) + fl (b * fl (4 / 10))) + fl (c * fl (2 / 10))) * 100) + 1 / 2\<rfloor>
     \<le> \<lfloor>fl (fl (fl (fl (0 + fl (a' * fl (4 / 10))) + fl (b' * fl (4 / 10))) + fl (c' * fl (2 / 10))) * 100) + 1 / 2\<rfloor>"
    using p(2) by (intro floor_mono) simp
  have n0: "0 \<le> \<lfloor>fl (fl (fl (fl (0 + fl (a * fl (4 / 10))) + fl (b * fl (4 / 10))) + fl (c * fl (2 / 10))) * 100) + 1 / 2\<rfloor>"
    using p(1) by simp
  show ?thesis
    unfolding roundedSum_def Let_def using n n0
    by (intro fl_mono) (simp_all add: divide_right_mono)
qed



subsection \<open>The three scores\<close>

lemma matchSpeed_sentinels:
  "matchSpeed label_unknown = None" "matchSpeed label_measuring = None"
  by (simp_all add: matchSpeed_def label_unknown_def label_measuring_def is_digit_or_dot_def
      is_digit_def)

lemma speedScore_of_kbps:
  assumes "speedKBps l = Some k"
  shows "speedScore l = num_mult (math_min (num_div k (Num 5120)) (Num 1)) (Num 100)"
proof -
  from assms have "matchSpeed l \<noteq> None"
    by (auto simp: speedKBps_def split: option.splits)
  then have "l \<noteq> label_unknown" "l \<noteq> label_measuring"
    using matchSpeed_sentinels by auto
  with assms show ?thesis
    by (simp add: speedScore_def maxSpeed_def)
qed

lemma speedScore_no_match: "matchSpeed l = None \<Longrightarrow> speedScore l = Num 30"
  by (simp add: speedScore_def speedKBps_def)

lemma qualityScore_table:
  "qualityScore ''4K'' = Num 100" "qualityScore ''2K'' = Num 85"
  "qualityScore ''1080p'' = Num 75" "qualityScore ''720p'' = Num 60"
  "qualityScore ''480p'' = Num 40" "qualityScore ''SD'' = Num 20"
  "l \<notin> {''4K'', ''2K'', ''1080p'', ''720p'', ''480p'', ''SD''} \<Longrightarrow> qualityScore l = Num 30"
  by simp_all

lemma qualityScore_range: "\<exists>r. qualityScore l = Num r \<and> 0 \<le> r \<and> r \<le> 100"
  by simp

text \<open>A speed is \<^verbatim>\<open>NaN\<close>, or infinite, or a finite number that is not negative.\<close>

lemma parseFloat_range:
  "parseFloat s = NaN \<or> parseFloat s = Infinity
   \<or> (\<exists>v. parseFloat s = Num v \<and> 0 \<le> v \<and> v < pow2 1024)"
proof (cases "parseFloat s = NaN")
  case False
  then obtain r where "parseFloat s = toNumber r" "0 \<le> r"
    by (auto simp: parseFloat_def Let_def split: if_splits)
  then show ?thesis using toNumber_cases [of r] by auto
qed simp

lemma speedKBps_range:
  assumes "speedKBps l = Some k"
  shows "k = NaN \<or> k = Infinity \<or> (\<exists>v. k = Num v \<and> 0 \<le> v \<and> v < pow2 1024)"
proof -
  from assms obtain m u where k: "k = (if u = ''MB/s'' then num_mult (parseFloat m) (Num 1024) else parseFloat m)"
    by (auto simp: speedKBps_def Let_def split: option.splits)
  show ?thesis
  proof (cases "u = ''MB/s''")
    case False
    then show ?thesis using k parseFloat_range [of m] by simp
  next
    case True
    consider "parseFloat m = NaN" | "parseFloat m = Infinity"
      | v where "parseFloat m = Num v" "0 \<le> v"
      using parseFloat_range [of m] by blast
    then show ?thesis
    proof cases
      case 1
      then show ?thesis using k True by simp
    next
      case 2
      then show ?thesis using k True by (simp add: num_mult_def signedInfinity_def)
    next
      case 3
      hence "k = toNumber (v * 1024)" using k True by (simp add: num_mult_def)
      moreover have "0 \<le> v * 1024" using 3 by simp
      ultimately show ?thesis using toNumber_cases [of "v * 1024"] by auto
    qed
  qed
qed

lemma speed_Infinity:
  "num_mult (math_min (num_div Infinity (Num 5120)) (Num 1)) (Num 100) = Num 100"
  by (simp add: num_div_def signedInfinity_def math_min_def num_less_def num_mult_small fl_consts)

lemma speed_Num:
  assumes "0 \<le> v" "v < pow2 1024"
  shows "num_mult (math_min (num_div (Num v) (Num 5120)) (Num 1)) (Num 100)
         = Num (fl (min (fl (v / 5120)) 1 * 100))"
proof -
  have "pow2 1024 = 2 * pow2 1023" using pow2_add [of 1 1023] by (simp add: pow2_def)
  hence "v / 5120 < pow2 1023" using assms by simp
  hence d: "num_div (Num v) (Num 5120) = Num (fl (v / 5120))"
    using assms by (simp add: num_div_def toNumber_Num)
  have m: "math_min (Num (fl (v / 5120))) (Num 1) = Num (min (fl (v / 5120)) 1)"
    by (simp add: math_min_def num_less_def min_def)
  have "0 \<le> fl (v / 5120)" using assms by (intro fl_nonneg) simp
  hence "num_mult (Num (min (fl (v / 5120)) 1)) (Num 100) = Num (fl (min (fl (v / 5120)) 1 * 100))"
    by (intro num_mult_small) (simp_all add: min_def)
  thus ?thesis by (simp add: d m)
qed

lemma speed_bounds:
  assumes "0 \<le> v"
  shows "0 \<le> fl (min (fl (v / 5120)) 1 * 100)" "fl (min (fl (v / 5120)) 1 * 100) \<le> 100"
proof -
  have n: "0 \<le> fl (v / 5120)" using assms by (intro fl_nonneg) simp
  thus "0 \<le> fl (min (fl (v / 5120)) 1 * 100)" by (intro fl_nonneg) (simp add: min_def)
  have "fl (min (fl (v / 5120)) 1 * 100) \<le> fl 100"
    using n by (intro fl_mono) (simp_all add: min_def)
  thus "fl (min (fl (v / 5120)) 1 * 100) \<le> 100" by (simp add: fl_consts)
qed

lemma speedScore_range:
  "speedScore l = NaN \<or> (\<exists>s. speedScore l = Num s \<and> 0 \<le> s \<and> s \<le> 100)"
proof (cases "speedKBps l")
  case None
  then show ?thesis by (simp add: speedScore_def)
next
  case (Some k)
  note sp = speedScore_of_kbps [OF Some]
  consider "k = NaN" | "k = Infinity" | v where "k = Num v" "0 \<le> v" "v < pow2 1024"
    using speedKBps_range [OF Some] by blast
  then show ?thesis
  proof cases
    case 1
    then show ?thesis using sp by simp
  next
    case 2
    then show ?thesis using sp by (simp add: speed_Infinity)
  next
    case 3
    then show ?thesis using sp speed_bounds [of v] by (simp add: speed_Num)
  qed
qed

text \<open>The speed score does not fall when the speed grows.\<close>

lemma speedScore_mono:
  assumes "speedKBps l1 = Some k1" "speedKBps l2 = Some k2" "num_le k1 k2"
  shows "\<exists>s1 s2. speedScore l1 = Num s1 \<and> speedScore l2 = Num s2
           \<and> 0 \<le> s1 \<and> s1 \<le> s2 \<and> s2 \<le> 100"
proof -
  note sp1 = speedScore_of_kbps [OF assms(1)] and sp2 = speedScore_of_kbps [OF assms(2)]
  have nn: "k1 \<noteq> NaN" "k2 \<noteq> NaN" using assms(3) by (simp_all add: num_le_def)
  consider "k2 = Infinity" | v2 where "k2 = Num v2" "0 \<le> v2" "v2 < pow2 1024"
    using speedKBps_range [OF assms(2)] nn by blast
  then show ?thesis
  proof cases
    case 1
    consider "k1 = Infinity" | v1 where "k1 = Num v1" "0 \<le> v1" "v1 < pow2 1024"
      using speedKBps_range [OF assms(1)] nn by blast
    then show ?thesis
    proof cases
      case 1
      then show ?thesis using \<open>k2 = Infinity\<close> sp1 sp2 by (simp add: speed_Infinity)
    next
      case 2
      then show ?thesis using \<open>k2 = Infinity\<close> sp1 sp2 speed_bounds [of v1]
        by (simp add: speed_Infinity speed_Num)
    qed
  next
    case 2
    from assms(3) 2(1) obtain v1 where k1: "k1 = Num v1" "v1 \<le> v2"
      using speedKBps_range [OF assms(1)] nn
      by (auto simp: num_le_def num_less_def split: number.splits)
    have v1: "0 \<le> v1" "v1 < pow2 1024"
      using speedKBps_range [OF assms(1)] k1 by auto
    have "fl (v1 / 5120) \<le> fl (v2 / 5120)"
      using v1 k1 by (intro fl_mono) (simp_all add: divide_right_mono)
    hence "min (fl (v1 / 5120)) 1 * 100 \<le> min (fl (v2 / 5120)) 1 * 100"
      by (simp add: min_def)
    moreover have "0 \<le> fl (v1 / 5120)" using v1 by (intro fl_nonneg) simp
    ultimately have "fl (min (fl (v1 / 5120)) 1 * 100) \<le> fl (min (fl (v2 / 5120)) 1 * 100)"
      by (intro fl_mono) (simp_all add: min_def)
    then show ?thesis
      using sp1 sp2 k1 2 v1 speed_bounds [of v1] speed_bounds [of v2] by (simp add: speed_Num)
  qed
qed

text \<open>The ping score between the two thresholds.\<close>

lemma num_sub_pings: "num_sub (Num 1000) (Num 50) = Num 950"
  by (simp add: num_sub_def num_neg_def num_add_def toNumber_Num fl_consts pow2_def)

lemma pingScore_between:
  assumes "50 < x" "x < 1000"
  shows "pingScore (Num x) = Num (fl (fl (fl (1000 - x) / 950) * 100))"
proof -
  have "1000 - x < pow2 1023" using assms by (intro small_pow2) simp
  hence s: "num_sub (Num 1000) (Num x) = Num (fl (1000 - x))"
    using assms by (simp add: num_sub_def num_neg_def num_add_def toNumber_Num)
  have b1: "0 \<le> fl (1000 - x) \<and> fl (1000 - x) \<le> 2 * 950"
    using assms by (intro fl_small) simp_all
  hence d: "num_div (Num (fl (1000 - x))) (Num 950) = Num (fl (fl (1000 - x) / 950))"
    by (intro num_div_small) simp_all
  have "0 \<le> fl (fl (1000 - x) / 950) \<and> fl (fl (1000 - x) / 950) \<le> 2 * 2"
    using b1 by (intro fl_small) simp_all
  hence m: "num_mult (Num (fl (fl (1000 - x) / 950))) (Num 100)
            = Num (fl (fl (fl (1000 - x) / 950) * 100))"
    by (intro num_mult_small) simp_all
  show ?thesis using assms
    by (simp add: pingScore_def Let_def num_le_def num_less_def num_sub_pings s d m)
qed

lemma between_bounds:
  assumes "x \<le> 1000"
  shows "0 \<le> fl (fl (fl (1000 - x) / 950) * 100)"
  using assms by (intro fl_nonneg mult_nonneg_nonneg divide_nonneg_nonneg) simp_all

lemma between_antimono:
  assumes "x2 \<le> x1" "x1 \<le> 1000"
  shows "fl (fl (fl (1000 - x1) / 950) * 100) \<le> fl (fl (fl (1000 - x2) / 950) * 100)"
proof -
  have a: "0 \<le> fl (1000 - x1)" "fl (1000 - x1) \<le> fl (1000 - x2)"
    using assms by (auto intro!: fl_nonneg fl_mono)
  have b: "0 \<le> fl (fl (1000 - x1) / 950)" "fl (fl (1000 - x1) / 950) \<le> fl (fl (1000 - x2) / 950)"
    using a by (auto intro!: fl_nonneg fl_mono divide_right_mono)
  show ?thesis using b by (intro fl_mono) simp_all
qed

lemma between_le_100:
  assumes "50 \<le> x" "x \<le> 1000"
  shows "fl (fl (fl (1000 - x) / 950) * 100) \<le> 100"
proof -
  have "fl (fl (fl (1000 - x) / 950) * 100) \<le> fl (fl (fl (1000 - 50) / 950) * 100)"
    using assms by (rule between_antimono)
  thus ?thesis by (simp add: fl_consts)
qed

lemma pingScore_range:
  "pingScore p = NaN \<or> (\<exists>s. pingScore p = Num s \<and> 0 \<le> s \<and> s \<le> 100)"
proof (cases p)
  case (Num x)
  show ?thesis
  proof (cases "50 < x \<and> x < 1000")
    case True
    then show ?thesis using Num between_bounds [of x] between_le_100 [of x]
      by (simp add: pingScore_between)
  next
    case False
    then show ?thesis using Num
      by (auto simp: pingScore_def Let_def num_le_def num_less_def)
  qed
qed (simp_all add: pingScore_def Let_def num_le_def num_less_def num_sub_def num_neg_def)

text \<open>The ping score does not fall when the ping falls, down to 50.\<close>

lemma pingScore_antimono:
  assumes "num_le (Num 50) p2" "num_le p2 p1"
  shows "\<exists>s1 s2. pingScore p1 = Num s1 \<and> pingScore p2 = Num s2
           \<and> 0 \<le> s1 \<and> s1 \<le> s2 \<and> s2 \<le> 100"
proof -
  have zero: "pingScore p = Num 0" if "num_le (Num 1000) p" for p
    using that by (cases p) (auto simp: pingScore_def Let_def num_le_def num_less_def)
  from assms(1) consider "p2 = Infinity" | x2 where "p2 = Num x2" "50 \<le> x2"
    by (cases p2) (auto simp: num_le_def num_less_def)
  then show ?thesis
  proof cases
    case 1
    hence "p1 = Infinity" using assms(2) by (cases p1) (auto simp: num_le_def num_less_def)
    then show ?thesis using 1 by (simp add: zero num_le_def num_less_def)
  next
    case 2
    have s2: "\<exists>s. pingScore p2 = Num s \<and> 0 \<le> s \<and> s \<le> 100"
      using pingScore_range [of p2] 2
      by (cases "50 < x2 \<and> x2 < 1000")
         (auto simp: pingScore_between, auto simp: pingScore_def Let_def num_le_def num_less_def)
    show ?thesis
    proof (cases "num_le (Num 1000) p1")
      case True
      then show ?thesis using s2 by (auto simp: zero)
    next
      case False
      then obtain x1 where p1: "p1 = Num x1" "x2 \<le> x1" "x1 < 1000"
        using assms(2) 2 by (cases p1) (auto simp: num_le_def num_less_def)
      show ?thesis
      proof (cases "50 < x2")
        case True
        then show ?thesis
          using p1 2 between_antimono [of x2 x1] between_bounds [of x1] between_le_100 [of x2]
          by (simp add: pingScore_between)
      next
        case f: False
        hence x2: "x2 = 50" using 2 by simp
        have e2: "pingScore p2 = Num 100"
          using 2 x2 by (simp add: pingScore_def Let_def num_le_def num_less_def)
        show ?thesis
        proof (cases "50 < x1")
          case True
          then show ?thesis using p1 e2 between_bounds [of x1] between_le_100 [of x1]
            by (simp add: pingScore_between)
        next
          case False
          hence "p1 = p2" using p1 2 x2 by simp
          then show ?thesis using e2 by simp
        qed
      qed
    qed
  qed
qed

subsection \<open>The score\<close>


lemma finalScore_mono:
  assumes "0 \<le> a" "a \<le> a'" "a' \<le> 100" "0 \<le> b" "b \<le> b'" "b' \<le> 100"
    "0 \<le> c" "c \<le> c'" "c' \<le> 100"
  shows "notBelow (finalScore (Num a') (Num b') (Num c')) (finalScore (Num a) (Num b) (Num c))"
  using assms roundedSum_mono [of a a' b b' c c']
  by (simp add: finalScore_Num notBelow_def num_le_def num_less_def)





text \<open>
  Claim C4, at an input where the code leaves it. The claim gives every input the
  weighted sum of three scores, with 30 for a speed label that cannot be parsed. The
  label \<^verbatim>\<open>.KB/s\<close> matches the regular expression of the code, \<^verbatim>\<open>parseFloat\<close> finds no
  number in its magnitude, and the score is \<^verbatim>\<open>NaN\<close>, not the sum the claim gives
  (30 + 12 + 18.95 = 60.95), which is what the code computes from the speed score 30.
\<close>

theorem calculateVideoScore_not_a_number:
  "matchSpeed ''.KB/s'' = Some (''.'', ''KB/s'')
   \<and> parseFloat ''.'' = NaN
   \<and> speedScore ''.KB/s'' = NaN
   \<and> calculateVideoScore \<lparr>quality = ''1080p'', loadSpeed = ''.KB/s'', pingTime = Num 100\<rparr> = NaN
   \<and> finalScore (qualityScore ''1080p'') (Num 30) (pingScore (Num 100)) = toNumber (6095 / 100)"
  by (simp add: scorer_defs finalScore_def number_defs)

text \<open>
  Claim C9: the video score is a function of its input and of nothing else, and it does
  not decrease when the quality label moves up the table, when the load speed grows, or
  when the ping falls and stays at 50 ms or more, the other two inputs being fixed. This
  holds of the score as the code computes it, every operation rounded to the nearest
  number: rounding keeps the order. (\<open>notBelow\<close>: the first score is at least the
  second, or both are \<^verbatim>\<open>NaN\<close>.)
\<close>

theorem calculateVideoScore_deterministic_monotonic:
  "(v = v' \<longrightarrow> calculateVideoScore v = calculateVideoScore v')
   \<and> (num_le (qualityScore q1) (qualityScore q2) \<longrightarrow>
        notBelow (calculateVideoScore \<lparr>quality = q2, loadSpeed = l, pingTime = p\<rparr>)
                 (calculateVideoScore \<lparr>quality = q1, loadSpeed = l, pingTime = p\<rparr>))
   \<and> (speedKBps l1 = Some k1 \<and> speedKBps l2 = Some k2 \<and> num_le k1 k2 \<longrightarrow>
        notBelow (calculateVideoScore \<lparr>quality = ql, loadSpeed = l2, pingTime = p\<rparr>)
                 (calculateVideoScore \<lparr>quality = ql, loadSpeed = l1, pingTime = p\<rparr>))
   \<and> (num_le (Num 50) p2 \<and> num_le p2 p1 \<longrightarrow>
        notBelow (calculateVideoScore \<lparr>quality = ql, loadSpeed = l, pingTime = p2\<rparr>)
                 (calculateVideoScore \<lparr>quality = ql, loadSpeed = l, pingTime = p1\<rparr>))"
proof (intro conjI impI)
  assume "v = v'"
  then show "calculateVideoScore v = calculateVideoScore v'" by simp
next
  assume h: "num_le (qualityScore q1) (qualityScore q2)"
  obtain a1 a2 where a: "qualityScore q1 = Num a1" "0 \<le> a1" "qualityScore q2 = Num a2" "a2 \<le> 100"
    using qualityScore_range [of q1] qualityScore_range [of q2] by blast
  hence le: "a1 \<le> a2" using h by (simp add: num_le_def num_less_def)
  consider "speedScore l = NaN" | "pingScore p = NaN"
    | b c where "speedScore l = Num b" "0 \<le> b" "b \<le> 100" "pingScore p = Num c" "0 \<le> c" "c \<le> 100"
    using speedScore_range [of l] pingScore_range [of p] by blast
  then show "notBelow (calculateVideoScore \<lparr>quality = q2, loadSpeed = l, pingTime = p\<rparr>)
                 (calculateVideoScore \<lparr>quality = q1, loadSpeed = l, pingTime = p\<rparr>)"
  proof cases
    case 3
    then show ?thesis using a le finalScore_mono [of a1 a2 b b c c]
      by (simp add: calculateVideoScore_finalScore)
  qed (simp_all add: calculateVideoScore_finalScore notBelow_def)
next
  assume h: "speedKBps l1 = Some k1 \<and> speedKBps l2 = Some k2 \<and> num_le k1 k2"
  then obtain b1 b2 where b: "speedScore l1 = Num b1" "speedScore l2 = Num b2"
      "0 \<le> b1" "b1 \<le> b2" "b2 \<le> 100"
    using speedScore_mono [of l1 k1 l2 k2] by blast
  obtain a where a: "qualityScore ql = Num a" "0 \<le> a" "a \<le> 100"
    using qualityScore_range by blast
  consider "pingScore p = NaN" | c where "pingScore p = Num c" "0 \<le> c" "c \<le> 100"
    using pingScore_range [of p] by blast
  then show "notBelow (calculateVideoScore \<lparr>quality = ql, loadSpeed = l2, pingTime = p\<rparr>)
                 (calculateVideoScore \<lparr>quality = ql, loadSpeed = l1, pingTime = p\<rparr>)"
  proof cases
    case 2
    then show ?thesis using a b finalScore_mono [of a a b1 b2 c c]
      by (simp add: calculateVideoScore_finalScore)
  qed (simp_all add: calculateVideoScore_finalScore notBelow_def)
next
  assume h: "num_le (Num 50) p2 \<and> num_le p2 p1"
  then obtain c1 c2 where c: "pingScore p1 = Num c1" "pingScore p2 = Num c2"
      "0 \<le> c1" "c1 \<le> c2" "c2 \<le> 100"
    using pingScore_antimono [of p2 p1] by blast
  obtain a where a: "qualityScore ql = Num a" "0 \<le> a" "a \<le> 100"
    using qualityScore_range by blast
  consider "speedScore l = NaN" | b where "speedScore l = Num b" "0 \<le> b" "b \<le> 100"
    using speedScore_range [of l] by blast
  then show "notBelow (calculateVideoScore \<lparr>quality = ql, loadSpeed = l, pingTime = p2\<rparr>)
                 (calculateVideoScore \<lparr>quality = ql, loadSpeed = l, pingTime = p1\<rparr>)"
  proof cases
    case 2
    then show ?thesis using a c finalScore_mono [of a a b b c1 c2]
      by (simp add: calculateVideoScore_finalScore)
  qed (simp_all add: calculateVideoScore_finalScore notBelow_def)
qed

theorem calculateVideoScore_deterministic_monotonic_witness:
  "num_le (qualityScore ''720p'') (qualityScore ''1080p'')
   \<and> notBelow
        (calculateVideoScore \<lparr>quality = ''1080p'', loadSpeed = ''1.2 MB/s'', pingTime = Num 100\<rparr>)
        (calculateVideoScore \<lparr>quality = ''720p'', loadSpeed = ''1.2 MB/s'', pingTime = Num 100\<rparr>)
   \<and> speedKBps ''500 KB/s'' = Some (Num 500) \<and> speedKBps ''1.5 MB/s'' = Some (Num 1536)
   \<and> notBelow
        (calculateVideoScore \<lparr>quality = ''SD'', loadSpeed = ''1.5 MB/s'', pingTime = Num 100\<rparr>)
        (calculateVideoScore \<lparr>quality = ''SD'', loadSpeed = ''500 KB/s'', pingTime = Num 100\<rparr>)
   \<and> notBelow
        (calculateVideoScore \<lparr>quality = ''4K'', loadSpeed = ''16 KB/s'', pingTime = Num 60\<rparr>)
        (calculateVideoScore \<lparr>quality = ''4K'', loadSpeed = ''16 KB/s'', pingTime = Num 962\<rparr>)
   \<and> calculateVideoScore \<lparr>quality = ''4K'', loadSpeed = ''16 KB/s'', pingTime = Num 962\<rparr>
       = toNumber (4092 / 100)"
proof -
  have k1: "speedKBps ''500 KB/s'' = Some (Num 500)"
    by (simp add: scorer_defs number_defs)
  have k2: "speedKBps ''1.5 MB/s'' = Some (Num 1536)"
    by (simp add: scorer_defs number_defs)
  have qs: "num_le (qualityScore ''720p'') (qualityScore ''1080p'')"
    by (simp add: num_le_def num_less_def)
  have ps: "num_le (Num 50) (Num 60) \<and> num_le (Num 60) (Num 962)"
    by (simp add: num_le_def num_less_def)
  have ks: "num_le (Num 500) (Num 1536)"
    by (simp add: num_le_def num_less_def)
  have v: "calculateVideoScore \<lparr>quality = ''4K'', loadSpeed = ''16 KB/s'', pingTime = Num 962\<rparr>
       = toNumber (4092 / 100)"
    by (simp add: scorer_defs number_defs)
  note mono = calculateVideoScore_deterministic_monotonic
  from mono [where ?q1.0 = "''720p''" and ?q2.0 = "''1080p''" and l = "''1.2 MB/s''"
               and p = "Num 100"] qs
  have a: "notBelow
        (calculateVideoScore \<lparr>quality = ''1080p'', loadSpeed = ''1.2 MB/s'', pingTime = Num 100\<rparr>)
        (calculateVideoScore \<lparr>quality = ''720p'', loadSpeed = ''1.2 MB/s'', pingTime = Num 100\<rparr>)"
    by blast
  from mono [where ?l1.0 = "''500 KB/s''" and ?k1.0 = "Num 500" and ?l2.0 = "''1.5 MB/s''"
               and ?k2.0 = "Num 1536" and ql = "''SD''" and p = "Num 100"] k1 k2 ks
  have b: "notBelow
        (calculateVideoScore \<lparr>quality = ''SD'', loadSpeed = ''1.5 MB/s'', pingTime = Num 100\<rparr>)
        (calculateVideoScore \<lparr>quality = ''SD'', loadSpeed = ''500 KB/s'', pingTime = Num 100\<rparr>)"
    by blast
  from mono [where ?p1.0 = "Num 962" and ?p2.0 = "Num 60" and ql = "''4K''" and l = "''16 KB/s''"] ps
  have c: "notBelow
        (calculateVideoScore \<lparr>quality = ''4K'', loadSpeed = ''16 KB/s'', pingTime = Num 60\<rparr>)
        (calculateVideoScore \<lparr>quality = ''4K'', loadSpeed = ''16 KB/s'', pingTime = Num 962\<rparr>)"
    by blast
  from qs a k1 k2 b c v show ?thesis by blast
qed

section \<open>The failover selector\<close>

subsection \<open>The sort\<close>


lemma arraySort_Cons: "arraySort f (x # xs) = insertSorted f x (arraySort f xs)"
  by (simp add: arraySort_def)






lemma insertSorted_insort_key:
  fixes rank :: "'a \<Rightarrow> real"
  assumes "\<forall>y \<in> set ys. (num_less (Num 0) (sortCompare f x y) \<longleftrightarrow> rank x < rank y)"
  shows "insertSorted f x ys = insort_key (\<lambda>c. - rank c) x ys"
  using assms by (induction ys) auto

lemma arraySort_sort_key:
  fixes rank :: "'a \<Rightarrow> real"
  assumes "\<forall>x \<in> set xs. \<forall>y \<in> set xs. (num_less (Num 0) (sortCompare f x y) \<longleftrightarrow> rank x < rank y)"
  shows "arraySort f xs = sort_key (\<lambda>c. - rank c) xs"
  using assms
proof (induction xs)
  case Nil
  then show ?case by (simp add: arraySort_def)
next
  case (Cons x xs)
  then have IH: "arraySort f xs = sort_key (\<lambda>c. - rank c) xs" by simp
  have "\<forall>y \<in> set (sort_key (\<lambda>c. - rank c) xs). (num_less (Num 0) (sortCompare f x y) \<longleftrightarrow> rank x < rank y)"
    using Cons.prems by simp
  then show ?case
    by (simp add: arraySort_Cons IH insertSorted_insort_key)
qed

text \<open>
  So for such a comparison function the result is what every stable sort gives: a list
  with the same elements, sorted by falling rank, that keeps elements of equal rank in
  the order of the input, is the list of the model.
\<close>

lemma arraySort_the_stable_sort:
  fixes rank :: "'a \<Rightarrow> real"
  assumes "\<forall>x \<in> set xs. \<forall>y \<in> set xs. (num_less (Num 0) (sortCompare f x y) \<longleftrightarrow> rank x < rank y)"
    and "mset ys = mset xs"
    and "sorted (map (\<lambda>c. - rank c) ys)"
    and "\<And>k. k \<in> set ys \<Longrightarrow> filter (\<lambda>c. rank k = rank c) ys = filter (\<lambda>c. rank k = rank c) xs"
  shows "ys = arraySort f xs"
proof -
  have "sort_key (\<lambda>c. - rank c) xs = ys"
    using assms(2) _ assms(3)
  proof (rule properties_for_sort_key)
    fix k assume "k \<in> set ys"
    then show "filter (\<lambda>x. - rank k = - rank x) ys = filter (\<lambda>x. - rank k = - rank x) xs"
      using assms(4) by simp
  qed
  with arraySort_sort_key [OF assms(1)] show ?thesis by simp
qed

subsection \<open>What the selector returns\<close>




lemma getNextAvailableSource_reads: "snd (getNextAvailableSource cur i st) = st"
  by (simp add: getNextAvailableSource_def Let_def split: list.splits)


subsection \<open>The ranking\<close>


lemma toNumber_not_NaN [simp]: "toNumber d \<noteq> NaN"
  by (simp add: toNumber_def Let_def)







lemmas selector_defs = getNextAvailableSource_def availableSources_def initialState_def
  candidate_def arraySort_def sortCompare_def compareSources_def num_less_def
  resolutionPriority_def

lemma scenario_selected:
  "fst (getNextAvailableSource ''B'' (Num 4) scenarioState)
     = Some (candidate ''A'' 5 (Some info80) (Some ''4K''))"
  by (simp add: scenarioState_def selector_defs)



subsection \<open>The filter\<close>


text \<open>
  Claim C1, as the claim states it, fails. For the index -1 the selector returns a
  candidate that has no episode at all, so none at the requested index; for the index
  2.5, which is the index of nothing, it returns a candidate as well. The source
  compares the number it is given with the number of episodes and nothing more.
\<close>

theorem getNextAvailableSource_filter_counterexample:
  "fst (getNextAvailableSource ''B'' (Num (- 1)) emptyState)
     = Some (candidate ''A'' 0 None (Some ''1080p''))
   \<and> episodes (candidate ''A'' 0 None (Some ''1080p'')) = []
   \<and> fst (getNextAvailableSource ''B'' (Num (5 / 2)) plainState)
       = Some (candidate ''A'' 5 None (Some ''1080p''))"
  by (simp add: emptyState_def plainState_def selector_defs)




subsection \<open>The order of the candidates\<close>




section \<open>Merging a batch\<close>

lemma source_attachResolution: "source (attachResolution probe r) = source r"
  by (simp add: attachResolution_def)

lemma title_attachResolution: "title (attachResolution probe r) = title r"
  by (simp add: attachResolution_def)

lemma map_source_attachResolution: "map source (map (attachResolution probe) rs) = map source rs"
  by (simp add: source_attachResolution)

lemma searchResults_processAndSetResults_append:
  "searchResults (processAndSetResults probe False results True st)
     = searchResults st @
       filter (\<lambda>r. source r \<notin> source ` set (searchResults st))
         (map (attachResolution probe) results)"
  by (simp add: processAndSetResults_def Let_def)

lemma searchResults_processAndSetResults_replace:
  "searchResults (processAndSetResults probe False results False st)
     = map (attachResolution probe) results"
  by (simp add: processAndSetResults_def Let_def)

lemma distinct_map_filter_source:
  "distinct (map source xs) \<Longrightarrow> distinct (map source (filter P xs))"
  by (simp add: distinct_map_filter)

text \<open>
  Claim C2, as the claim states it, fails: two results of one batch that come from the
  same source, a source the store does not hold yet, are both added.
\<close>

theorem processAndSetResults_append_counterexample:
  "map source (searchResults (processAndSetResults noProbe False
       [result ''A'' 1 3 None, result ''A'' 2 5 None] True initialState)) = [''A'', ''A'']
   \<and> \<not> distinct (map source (searchResults (processAndSetResults noProbe False
       [result ''A'' 1 3 None, result ''A'' 2 5 None] True initialState)))"
  by (simp add: processAndSetResults_def initialState_def result_def attachResolution_def)

text \<open>
  Claim C2, amended. A merge in append mode keeps the results the store holds, in their
  places and as they are, and adds behind them the results of the batch whose source
  none of the held results has, and only those; when no two held results share a
  source and no two results of the batch share a source, no two results share a source
  afterwards. A merge whose signal is aborted changes nothing.
\<close>

theorem processAndSetResults_append:
  "take (length (searchResults st))
       (searchResults (processAndSetResults probe False results True st))
     = searchResults st
   \<and> drop (length (searchResults st))
       (searchResults (processAndSetResults probe False results True st))
     = filter (\<lambda>r. source r \<notin> source ` set (searchResults st))
         (map (attachResolution probe) results)
   \<and> (distinct (map source (searchResults st)) \<and> distinct (map source results) \<longrightarrow>
        distinct (map source (searchResults (processAndSetResults probe False results True st))))
   \<and> processAndSetResults probe True results True st = st"
proof (intro conjI impI)
  show "take (length (searchResults st))
          (searchResults (processAndSetResults probe False results True st))
     = searchResults st"
    by (simp add: searchResults_processAndSetResults_append)
  show "drop (length (searchResults st))
          (searchResults (processAndSetResults probe False results True st))
     = filter (\<lambda>r. source r \<notin> source ` set (searchResults st))
         (map (attachResolution probe) results)"
    by (simp add: searchResults_processAndSetResults_append)
  show "processAndSetResults probe True results True st = st"
    by (simp add: processAndSetResults_def)
next
  assume h: "distinct (map source (searchResults st)) \<and> distinct (map source results)"
  then have "distinct (map source (map (attachResolution probe) results))"
    by (simp add: map_source_attachResolution del: map_map)
  then have "distinct (map source (filter (\<lambda>r. source r \<notin> source ` set (searchResults st))
                 (map (attachResolution probe) results)))"
    by (rule distinct_map_filter_source)
  moreover have "set (map source (searchResults st))
       \<inter> set (map source (filter (\<lambda>r. source r \<notin> source ` set (searchResults st))
                 (map (attachResolution probe) results))) = {}"
    by (auto simp: image_iff)
  ultimately
  show "distinct (map source (searchResults (processAndSetResults probe False results True st)))"
    using h by (simp add: searchResults_processAndSetResults_append del: set_map set_filter)
qed

theorem processAndSetResults_append_witness:
  "distinct (map source (searchResults plainState))
   \<and> distinct (map source [result ''A'' 1 3 None, result ''E'' 2 5 None])
   \<and> distinct (map source (searchResults (processAndSetResults noProbe False
        [result ''A'' 1 3 None, result ''E'' 2 5 None] True plainState)))
   \<and> map source (searchResults (processAndSetResults noProbe False
        [result ''A'' 1 3 None, result ''E'' 2 5 None] True plainState))
      = [''B'', ''A'', ''C'', ''E'']"
proof -
  have d1: "distinct (map source (searchResults plainState))"
    by (simp add: plainState_def initialState_def candidate_def)
  have d2: "distinct (map source [result ''A'' 1 3 None, result ''E'' 2 5 None])"
    by (simp add: result_def)
  have "map source (searchResults (processAndSetResults noProbe False
        [result ''A'' 1 3 None, result ''E'' 2 5 None] True plainState))
      = [''B'', ''A'', ''C'', ''E'']"
    by (simp add: processAndSetResults_def plainState_def initialState_def candidate_def
        result_def attachResolution_def)
  with d1 d2
    processAndSetResults_append
      [of plainState noProbe "[result ''A'' 1 3 None, result ''E'' 2 5 None]"]
  show ?thesis by blast
qed

section \<open>The elementary changes of the world\<close>

lemma store_setState [simp]: "store (setState f w) = f (store w)"
  by (simp add: setState_def)
lemma store_updateInit [simp]: "store (updateInit n f w) = store w"
  by (simp add: updateInit_def)
lemma store_suspend [simp]: "store (suspend n a w) = store w"
  by (simp add: suspend_def)
lemma store_request [simp]: "store (request c w) = store w"
  by (simp add: request_def)
lemma store_abort [simp]: "store (abort w) = store w"
  by (simp add: abort_def split: option.splits)

lemma inits_setState [simp]: "inits (setState f w) = inits w"
  by (simp add: setState_def)
lemma inits_request [simp]: "inits (request c w) = inits w"
  by (simp add: request_def)
lemma requests_setState [simp]: "requests (setState f w) = requests w"
  by (simp add: setState_def)
lemma requests_updateInit [simp]: "requests (updateInit n f w) = requests w"
  by (simp add: updateInit_def)
lemma requests_suspend [simp]: "requests (suspend n a w) = requests w"
  by (simp add: suspend_def)
lemma requests_request [simp]: "requests (request c w) = requests w @ [c]"
  by (simp add: request_def)
lemma requests_abort [simp]: "requests (abort w) = requests w"
  by (simp add: abort_def split: option.splits)
lemma length_inits_updateInit [simp]: "length (inits (updateInit n f w)) = length (inits w)"
  by (simp add: updateInit_def)
lemma length_inits_suspend [simp]: "length (inits (suspend n a w)) = length (inits w)"
  by (simp add: suspend_def)
lemma length_inits_abort [simp]: "length (inits (abort w)) = length (inits w)"
  by (simp add: abort_def split: option.splits)

lemma nth_inits_updateInit:
  "m < length (inits w) \<Longrightarrow> inits (updateInit n f w) ! m = (if m = n then f (inits w ! m) else inits w ! m)"
  by (simp add: updateInit_def)

lemma inits_requests [simp]: "inits (foldl (\<lambda>w' r. request (g r) w') w rs) = inits w"
  by (induction rs arbitrary: w) simp_all

lemma store_requests [simp]: "store (foldl (\<lambda>w' r. request (g r) w') w rs) = store w"
  by (induction rs arbitrary: w) simp_all

lemma arg_q_updateInit:
  "(\<And>c. arg_q (f c) = arg_q c) \<Longrightarrow> arg_q (inits (updateInit n f w) ! m) = arg_q (inits w ! m)"
  by (cases "n < length (inits w)"; cases "m = n"; simp add: updateInit_def list_update_beyond)

lemma signal_aborted_updateInit:
  "(\<And>c. signal_aborted (f c) = signal_aborted c) \<Longrightarrow>
     signal_aborted (inits (updateInit n f w) ! m) = signal_aborted (inits w ! m)"
  by (cases "n < length (inits w)"; cases "m = n"; simp add: updateInit_def list_update_beyond)

lemma arg_q_suspend [simp]: "arg_q (inits (suspend n a w) ! m) = arg_q (inits w ! m)"
  by (simp add: suspend_def arg_q_updateInit)

lemma awaiting_suspend [simp]:
  "n < length (inits w) \<Longrightarrow> awaiting (inits (suspend n a w) ! n) = a"
  by (simp add: suspend_def updateInit_def)

lemma list_all_update: "list_all P xs \<Longrightarrow> P v \<Longrightarrow> list_all P (xs[i := v])"
  by (auto simp: list_all_iff dest!: set_update_subset_insert [THEN subsetD])

lemma dispatch_Returned [simp]: "dispatch n Returned e w = w"
  by (cases e) simp_all

lemmas handler_defs = afterSearchPreferred_def afterProcessPreferred_def
  afterSearchBackground_def afterProcessBackground_def afterSearchFallback_def
  afterProcessFallback_def afterResources_def afterTaskSearch_def afterTaskProcess_def
  afterFavorite_def

lemmas world_defs = initStart_def abort_def setState_def suspend_def updateInit_def request_def
  resume_def handler_defs settle_def afterFanOut_def finalCheck_def finallyBlock_def
  processed_def signalAborted_def searchVideo_def searchVideos_def getResources_def
  initialWorld_def initialState_def allEnabled_def

section \<open>The set of failed sources\<close>

lemma failedSources_processAndSetResults [simp]:
  "failedSources (processAndSetResults probe ab rs m st) = failedSources st"
  by (simp add: processAndSetResults_def Let_def)

lemma failedSources_processed [simp]:
  "failedSources (store (processed n probe rs m w)) = failedSources (store w)"
  by (simp add: processed_def)

lemma failedSources_finallyBlock [simp]:
  "failedSources (store (finallyBlock n w)) = failedSources (store w)"
  by (simp add: finallyBlock_def)

lemma failedSources_finalCheck [simp]:
  "failedSources (store (finalCheck n w)) = failedSources (store w)"
  by (simp add: finalCheck_def Let_def split: option.splits)

lemma failedSources_afterFanOut [simp]:
  "failedSources (store (afterFanOut n w)) = failedSources (store w)"
  by (simp add: afterFanOut_def)

lemma failedSources_settle [simp]:
  "failedSources (store (settle n i w)) = failedSources (store w)"
  by (simp add: settle_def Let_def split: awaiting.splits)

lemma failedSources_dispatch:
  "failedSources (store (dispatch n a e w)) = failedSources (store w)"
  by (cases "(n, a, e, w)" rule: dispatch.cases)
     (simp_all add: handler_defs Let_def
        split: sum.splits task.splits awaiting.splits)

lemma failedSources_initStart:
  "failedSources (store (initStart qv p i vs w)) = failedSources (store w)"
  by (simp add: initStart_def Let_def split: option.splits)

lemma step_failedSources:
  "step w w' \<Longrightarrow> failedSources (store w) \<subseteq> failedSources (store w')"
  by (induction rule: step.induct)
     (auto simp: failedSources_initStart resume_def failedSources_dispatch setDetail_def
        favoriteAnswered_def markSourceAsFailed_def getNextAvailableSource_def Let_def split: list.splits)

lemma steps_failedSources:
  "step\<^sup>*\<^sup>* w w' \<Longrightarrow> failedSources (store w) \<subseteq> failedSources (store w')"
  by (induction rule: rtranclp_induct) (auto dest: step_failedSources)

text \<open>
  Claim C6, as the claim states it, fails: the source \<open>A\<close> has been marked as failed,
  a new search starts, and the set of failed sources of the new search holds \<open>A\<close>.
\<close>

theorem init_keeps_failedSources_counterexample:
  "step initialWorld failedWorld
   \<and> failedSources (store failedWorld) = {''A''}
   \<and> failedSources (store (initStart ''Y'' None None allEnabled failedWorld)) = {''A''}
   \<and> failedSources (store (initStart ''Y'' None None allEnabled failedWorld)) \<noteq> {}"
proof -
  have "step initialWorld failedWorld"
    unfolding failedWorld_def by (rule step_markSourceAsFailed)
  moreover have "failedSources (store failedWorld) = {''A''}"
    by (simp add: failedWorld_def markSourceAsFailed_def initialWorld_def initialState_def)
  ultimately show ?thesis
    by (simp add: failedSources_initStart)
qed

text \<open>
  Claim C6, amended. No step of the store takes a source out of the set of failed
  sources: whatever happens between two worlds, the set of the first is part of the set
  of the second. The set is empty when the store is created, and the start of
  \<^verbatim>\<open>init\<close> leaves it as it is.
\<close>

theorem failedSources_only_grows:
  "(step\<^sup>*\<^sup>* w w' \<longrightarrow> failedSources (store w) \<subseteq> failedSources (store w'))
   \<and> failedSources (store initialWorld) = {}
   \<and> failedSources (store (initStart query preferredSource idv settings w))
       = failedSources (store w)"
  by (simp add: steps_failedSources failedSources_initStart initialWorld_def initialState_def)

theorem failedSources_only_grows_witness:
  "step\<^sup>*\<^sup>* failedWorld
      (setState (markSourceAsFailed ''B'' ''timeout'')
         (initStart ''Y'' None None allEnabled failedWorld))
   \<and> failedSources (store failedWorld)
       \<subseteq> failedSources (store (setState (markSourceAsFailed ''B'' ''timeout'')
                                 (initStart ''Y'' None None allEnabled failedWorld)))
   \<and> failedSources (store (setState (markSourceAsFailed ''B'' ''timeout'')
                              (initStart ''Y'' None None allEnabled failedWorld)))
       = {''B'', ''A''}"
proof -
  let ?w1 = "initStart ''Y'' None None allEnabled failedWorld"
  let ?w2 = "setState (markSourceAsFailed ''B'' ''timeout'') ?w1"
  have "step failedWorld ?w1" by (rule step_init)
  moreover have "step ?w1 ?w2" by (rule step_markSourceAsFailed)
  ultimately have steps: "step\<^sup>*\<^sup>* failedWorld ?w2" by auto
  with failedSources_only_grows [of failedWorld ?w2]
  have "failedSources (store failedWorld) \<subseteq> failedSources (store ?w2)" by blast
  moreover have "failedSources (store ?w2) = {''B'', ''A''}"
    by (simp add: failedSources_initStart markSourceAsFailed_def failedWorld_def
        initialWorld_def initialState_def)
  ultimately show ?thesis using steps by blast
qed

text \<open>
  Claim C7, as the claim states it, fails: \<^verbatim>\<open>getNextAvailableSource\<close> is called for the
  failed source \<open>B\<close> and selects \<open>A\<close>, and the set of failed sources does not hold
  \<open>B\<close> after the call.
\<close>

theorem getNextAvailableSource_records_counterexample:
  "fst (getNextAvailableSource ''B'' (Num 4) scenarioState)
     = Some (candidate ''A'' 5 (Some info80) (Some ''4K''))
   \<and> ''B'' \<notin> failedSources (snd (getNextAvailableSource ''B'' (Num 4) scenarioState))
   \<and> failedSources (snd (getNextAvailableSource ''B'' (Num 4) scenarioState)) = {}"
proof (intro conjI)
  show "fst (getNextAvailableSource ''B'' (Num 4) scenarioState)
     = Some (candidate ''A'' 5 (Some info80) (Some ''4K''))"
    by (rule scenario_selected)
  show "''B'' \<notin> failedSources (snd (getNextAvailableSource ''B'' (Num 4) scenarioState))"
    by (simp add: getNextAvailableSource_reads scenarioState_def initialState_def)
  show "failedSources (snd (getNextAvailableSource ''B'' (Num 4) scenarioState)) = {}"
    by (simp add: getNextAvailableSource_reads scenarioState_def initialState_def)
qed

text \<open>
  Claim C7, amended. Recording a failed source is an operation of its own:
  \<^verbatim>\<open>markSourceAsFailed\<close> puts the source into the set of failed sources and takes nothing
  out; \<^verbatim>\<open>getNextAvailableSource\<close> leaves the store as it is; so after
  \<^verbatim>\<open>markSourceAsFailed\<close> and then \<^verbatim>\<open>getNextAvailableSource\<close> for a source the set holds
  that source.
\<close>

theorem markSourceAsFailed_records:
  "failedSources (markSourceAsFailed src reason st) = insert src (failedSources st)
   \<and> snd (getNextAvailableSource cur i st) = st
   \<and> src \<in> failedSources (snd (getNextAvailableSource src i (markSourceAsFailed src reason st)))"
  by (simp add: getNextAvailableSource_reads markSourceAsFailed_def)

section \<open>The preferred source finds nothing\<close>

text \<open>The world right after the start of init with a preferred source.\<close>

lemma initStart_preferred:
  assumes "p \<noteq> []" "idv \<noteq> []"
  shows "inits (initStart query (Some p) (Some idv) settings w) =
           inits (abort w) @ [\<lparr>signal_aborted = False, arg_q = query, videoSource = settings,
                   firstResultFound = False, totalResults = 0, awaiting = SearchPreferred\<rparr>]"
    and "requests (initStart query (Some p) (Some idv) settings w) = requests w @ [SearchVideo query p (length (inits w))]"
    and "store (initStart query (Some p) (Some idv) settings w) =
           (store w)\<lparr>q := Some query, loading := True, searchResults := [],
                                   detail := None, error := None, allSourcesLoaded := False,
                                   controller := Some (length (inits w))\<rparr>"
  using assms by (simp_all add: initStart_def Let_def suspend_def updateInit_def setState_def request_def)


lemma waits_suspend:
  "waits n query a w \<Longrightarrow> waits n query b (suspend n b w)"
  by (simp add: waits_def suspend_def updateInit_def)

lemma waits_setState [simp]: "waits n query a (setState f w) = waits n query a w"
  by (simp add: waits_def)

lemma waits_request [simp]: "waits n query a (request c w) = waits n query a w"
  by (simp add: waits_def)

lemma waits_initStart:
  assumes "p \<noteq> []" "idv \<noteq> []"
  shows "waits (length (inits w)) query SearchPreferred (initStart query (Some p) (Some idv) settings w)"
  using assms by (simp add: waits_def initStart_preferred nth_append)

lemma resume_waits:
  "waits n query a w \<Longrightarrow> resume n e w = dispatch n a e w"
  by (simp add: waits_def resume_def)

lemma finallyBlock_live:
  assumes "waits n query a w"
  shows "store (finallyBlock n w) = (store w)\<lparr>loading := False, allSourcesLoaded := True\<rparr>"
    and "waits n query Returned (finallyBlock n w)"
    and "requests (finallyBlock n w) = requests w"
  using assms
  by (simp_all add: finallyBlock_def signalAborted_def waits_def suspend_def updateInit_def)

lemma preferredSearched_empty:
  assumes "p \<noteq> []" "idv \<noteq> []"
    and "searchVideo query reply1 = Inr [] \<or> (\<exists>e. reply1 = Inl e)"
  shows "waits (length (inits w)) query SearchFallback (preferredSearched query p idv settings reply1 w)"
    and "requests (preferredSearched query p idv settings reply1 w)
           = requests w @ [SearchVideo query p (length (inits w)), SearchVideos query]"
    and "store (preferredSearched query p idv settings reply1 w) =
           (store w)\<lparr>q := Some query, loading := True, searchResults := [],
                                   detail := None, error := None, allSourcesLoaded := False,
                                   controller := Some (length (inits w))\<rparr>"
proof -
  let ?n = "length (inits w)"
  let ?w1 = "initStart query (Some p) (Some idv) settings w"
  have w1: "waits ?n query SearchPreferred ?w1"
    using assms(1,2) by (rule waits_initStart)
  have empty: "(case searchVideo query reply1 of Inr results \<Rightarrow> results | Inl e \<Rightarrow> []) = []"
    using assms(3) by (auto simp: searchVideo_def)
  have eq: "preferredSearched query p idv settings reply1 w
          = suspend ?n SearchFallback (request (SearchVideos query) ?w1)"
    using w1 empty
    by (simp add: preferredSearched_def resume_waits [OF w1] afterSearchPreferred_def
        signalAborted_def waits_def Let_def)
  show "waits ?n query SearchFallback (preferredSearched query p idv settings reply1 w)"
    unfolding eq using w1 by (intro waits_suspend [where a = SearchPreferred]) simp
  show "requests (preferredSearched query p idv settings reply1 w)
           = requests w @ [SearchVideo query p ?n, SearchVideos query]"
    unfolding eq using assms(1,2) by (simp add: initStart_preferred)
  show "store (preferredSearched query p idv settings reply1 w) =
           (store w)\<lparr>q := Some query, loading := True, searchResults := [],
                                   detail := None, error := None, allSourcesLoaded := False,
                                   controller := Some ?n\<rparr>"
    unfolding eq using assms(1,2) by (simp add: initStart_preferred)
qed



lemma preferredRun_match:
  assumes "p \<noteq> []" "idv \<noteq> []"
    and "searchVideo query reply1 = Inr [] \<or> (\<exists>e. reply1 = Inl e)"
    and "filter (\<lambda>item. title item = query) allResults \<noteq> []"
  shows "searchResults (store (preferredRun query p idv settings reply1 (Inr allResults) probe fav w))
           = map (attachResolution probe) (filter (\<lambda>item. title item = query) allResults)"
    and "\<not> loading (store (preferredRun query p idv settings reply1 (Inr allResults) probe fav w))"
    and "error (store (preferredRun query p idv settings reply1 (Inr allResults) probe fav w)) = None"
    and "waits (length (inits w)) query Returned
           (preferredRun query p idv settings reply1 (Inr allResults) probe fav w)"
    and "searchResults (store (preferredProcessed query p idv settings reply1 (Inr allResults) probe w))
           = map (attachResolution probe) (filter (\<lambda>item. title item = query) allResults)"
    and "\<not> loading (store (preferredProcessed query p idv settings reply1 (Inr allResults) probe w))"
    and "error (store (preferredProcessed query p idv settings reply1 (Inr allResults) probe w)) = None"
    and "store (preferredAnswered query p idv settings reply1 (Inr allResults) w)
           = store (preferredSearched query p idv settings reply1 w)"
    and "waits (length (inits w)) query
           (ProcessFallback (filter (\<lambda>item. title item = query) allResults))
           (preferredAnswered query p idv settings reply1 (Inr allResults) w)"
proof -
  let ?n = "length (inits w)"
  let ?m = "filter (\<lambda>item. title item = query) allResults"
  let ?w2 = "preferredSearched query p idv settings reply1 w"
  let ?w3 = "suspend ?n (ProcessFallback ?m) ?w2"
  let ?w4' = "setState (\<lambda>st. st\<lparr>loading := False\<rparr>) (processed ?n probe ?m False ?w3)"
  let ?w4 = "suspend ?n Favorite ?w4'"
  let ?w5' = "(case fav of Inr b \<Rightarrow> setState (\<lambda>st. st\<lparr>isFavorited := b\<rparr>) ?w4 | Inl e \<Rightarrow> ?w4)"
  note w2 = preferredSearched_empty [OF assms(1-3), where settings = settings and w = w]
  have r3: "resume ?n (Reply (Inr allResults)) ?w2 = ?w3"
    using w2(1) assms(4)
    by (simp add: resume_waits [OF w2(1)] afterSearchFallback_def searchVideos_def waits_def Let_def)
  have w3: "waits ?n query (ProcessFallback ?m) ?w3"
    using w2(1) by (rule waits_suspend)
  have st4: "store (processed ?n probe ?m False ?w3)
               = processAndSetResults probe False ?m False (store ?w2)"
    using w3 by (simp add: processed_def signalAborted_def waits_def)
  have w4': "waits ?n query (ProcessFallback ?m) ?w4'"
    using w3 by (simp add: processed_def)
  obtain r rs where m: "?m = r # rs" using assms(4) by (cases ?m) auto
  have sr4: "searchResults (store ?w4') = map (attachResolution probe) ?m"
    by (simp add: st4 processAndSetResults_def Let_def)
  have "detail (store ?w4') = (case ?m of [] \<Rightarrow> None | x # _ \<Rightarrow> Some (attachResolution probe x))"
    by (simp add: st4 processAndSetResults_def Let_def w2(3) split: list.splits)
  then have d4: "detail (store ?w4') = Some (attachResolution probe r)"
    by (simp only: m list.case)
  have e4: "error (store ?w4') = None"
    by (simp add: st4 processAndSetResults_def Let_def w2(3))
  have ne4: "searchResults (store ?w4') \<noteq> []"
    using assms(4) by (simp only: sr4 map_is_Nil_conv not_False_eq_True)
  have "finalCheck ?n ?w4' = ?w4"
    using ne4 d4 by (simp only: finalCheck_def Let_def) simp
  then have r4: "resume ?n (Probed probe) ?w3 = ?w4"
    by (simp add: resume_waits [OF w3] afterProcessFallback_def Let_def)
  have w4: "waits ?n query Favorite ?w4"
    using w4' by (rule waits_suspend)
  have w5': "waits ?n query Favorite ?w5'"
    using w4 by (cases fav) simp_all
  have r5: "resume ?n (FavoriteReply fav) ?w4 = finallyBlock ?n ?w5'"
    by (simp add: resume_waits [OF w4] afterFavorite_def)
  have pp: "preferredProcessed query p idv settings reply1 (Inr allResults) probe w = ?w4"
    by (simp add: preferredProcessed_def Let_def r3 r4)
  have run: "preferredRun query p idv settings reply1 (Inr allResults) probe fav w
               = finallyBlock ?n ?w5'"
    by (simp add: preferredRun_def pp r5)
  have st5: "store (finallyBlock ?n ?w5') = (store ?w5')\<lparr>loading := False, allSourcesLoaded := True\<rparr>"
    using w5' by (rule finallyBlock_live)
  have sr5: "searchResults (store ?w5') = map (attachResolution probe) ?m"
    using sr4 by (cases fav) simp_all
  have e5: "error (store ?w5') = None"
    using e4 by (cases fav) simp_all
  show "searchResults (store (preferredRun query p idv settings reply1 (Inr allResults) probe fav w))
           = map (attachResolution probe) ?m"
    unfolding run st5 using sr5 by simp
  show "\<not> loading (store (preferredRun query p idv settings reply1 (Inr allResults) probe fav w))"
    unfolding run st5 by simp
  show "error (store (preferredRun query p idv settings reply1 (Inr allResults) probe fav w)) = None"
    unfolding run st5 using e5 by simp
  show "waits ?n query Returned
           (preferredRun query p idv settings reply1 (Inr allResults) probe fav w)"
    unfolding run using w5' by (rule finallyBlock_live)
  show "searchResults (store (preferredProcessed query p idv settings reply1 (Inr allResults) probe w))
           = map (attachResolution probe) ?m"
    unfolding pp using sr4 by simp
  show "\<not> loading (store (preferredProcessed query p idv settings reply1 (Inr allResults) probe w))"
    unfolding pp by simp
  show "error (store (preferredProcessed query p idv settings reply1 (Inr allResults) probe w)) = None"
    unfolding pp using e4 by simp
  show "store (preferredAnswered query p idv settings reply1 (Inr allResults) w) = store ?w2"
    by (simp add: preferredAnswered_def r3)
  show "waits ?n query (ProcessFallback ?m)
          (preferredAnswered query p idv settings reply1 (Inr allResults) w)"
    unfolding preferredAnswered_def r3 by (rule w3)
qed


lemma preferredRun_failed:
  assumes "p \<noteq> []" "idv \<noteq> []"
    and "searchVideo query reply1 = Inr [] \<or> (\<exists>e. reply1 = Inl e)"
  shows "store (preferredRun query p idv settings reply1 (Inl msg) probe fav w) =
           (store w)\<lparr>q := Some query, loading := False, searchResults := [],
              detail := None, error := Some (FallbackFailed msg), allSourcesLoaded := True,
              controller := Some (length (inits w))\<rparr>"
    and "waits (length (inits w)) query Returned
           (preferredRun query p idv settings reply1 (Inl msg) probe fav w)"
    and "requests (preferredRun query p idv settings reply1 (Inl msg) probe fav w)
           = requests w @ [SearchVideo query p (length (inits w)), SearchVideos query]"
proof -
  let ?n = "length (inits w)"
  let ?w2 = "preferredSearched query p idv settings reply1 w"
  let ?w2' = "setState (\<lambda>st. st\<lparr>error := Some (FallbackFailed msg), loading := False\<rparr>) ?w2"
  note w2 = preferredSearched_empty [OF assms(1-3), where settings = settings and w = w]
  have w2': "waits ?n query SearchFallback ?w2'" using w2(1) by simp
  have r3: "resume ?n (Reply (Inl msg)) ?w2 = finalCheck ?n ?w2'"
    using w2(1)
    by (simp add: resume_waits [OF w2(1)] afterSearchFallback_def searchVideos_def waits_def Let_def)
  have fc: "finalCheck ?n ?w2' = finallyBlock ?n ?w2'"
    by (simp add: finalCheck_def w2(3) Let_def)
  have w3: "waits ?n query Returned (finallyBlock ?n ?w2')"
    using w2' by (rule finallyBlock_live)
  have run: "preferredRun query p idv settings reply1 (Inl msg) probe fav w
               = finallyBlock ?n ?w2'"
    by (simp add: preferredRun_def preferredProcessed_def Let_def r3 fc resume_waits [OF w3])
  show "store (preferredRun query p idv settings reply1 (Inl msg) probe fav w) =
           (store w)\<lparr>q := Some query, loading := False, searchResults := [],
              detail := None, error := Some (FallbackFailed msg), allSourcesLoaded := True,
              controller := Some ?n\<rparr>"
    unfolding run by (simp add: finallyBlock_live(1) [OF w2'] w2(3))
  show "waits ?n query Returned (preferredRun query p idv settings reply1 (Inl msg) probe fav w)"
    unfolding run by (rule w3)
  show "requests (preferredRun query p idv settings reply1 (Inl msg) probe fav w)
           = requests w @ [SearchVideo query p ?n, SearchVideos query]"
    unfolding run by (simp add: finallyBlock_live(3) [OF w2'] w2(2))
qed

text \<open>A stored result is the search result it was made from, with a resolution: the
  quality label of the measurement, or what the probe finds for the first episode.\<close>

lemma truncate_attachResolution [simp]: "SearchResult.truncate (attachResolution probe r) = r"
  by (simp add: attachResolution_def SearchResult.truncate_def)

lemma resolution_attachResolution:
  "resolution (attachResolution probe r) =
     (case videoInfo r of
        Some vi \<Rightarrow> Some (quality vi)
      | None \<Rightarrow> (case episodes r of [] \<Rightarrow> None | e # _ \<Rightarrow> probe e))"
  by (simp add: attachResolution_def)


text \<open>
  Claim C8, as the claim states it, fails. The preferred source finds nothing for \<open>X\<close>,
  the search of all sources is requested and fails. There is no match, and the claim
  gives the store the error of the search that found no source; the store holds another
  error, the one of the failed search with the message of the failure.
\<close>

theorem preferred_source_fallback_counterexample:
  "searchVideo ''X'' (Inr []) = Inr []
   \<and> requests fallbackFailed = [SearchVideo ''X'' ''A'' 0, SearchVideos ''X'']
   \<and> searchResults (store fallbackFailed) = []
   \<and> \<not> loading (store fallbackFailed)
   \<and> error (store fallbackFailed) = Some (FallbackFailed ''Request timeout'')
   \<and> error (store fallbackFailed) \<noteq> Some (FallbackNotFound ''X'')"
proof -
  have h: "''A'' \<noteq> []" "''1'' \<noteq> []" "searchVideo ''X'' (Inr []) = Inr [] \<or> (\<exists>e. Inr [] = Inl e)"
    by (simp_all add: searchVideo_def)
  note run = preferredRun_failed [OF h, where settings = allEnabled and probe = noProbe
      and msg = "''Request timeout''" and fav = "Inr False" and w = initialWorld,
      folded fallbackFailed_def]
  show ?thesis
    by (simp add: run(1) run(3) searchVideo_def initialWorld_def)
qed



section \<open>A search that is overtaken\<close>

text \<open>
  Whatever the world: when the search of all sources settles without a result of the
  title, for an invocation whose signal is aborted, the invocation sets the error and
  clears the loading flag of the store.
\<close>

lemma aborted_fallback_sets_error:
  assumes "awaiting (inits w ! n) = SearchFallback"
    and "filter (\<lambda>item. title item = arg_q (inits w ! n)) allResults = []"
    and "signalAborted n w"
  shows "store (resume n (Reply (Inr allResults)) w)
           = (store w)\<lparr>error := Some (FallbackNotFound (arg_q (inits w ! n))),
                         loading := False\<rparr>"
  using assms
  by (simp add: resume_def afterSearchFallback_def searchVideos_def finalCheck_def
      finallyBlock_def signalAborted_def Let_def split: option.splits)

text \<open>
  Claim C3, at two histories where the code leaves it. The claim has every request go
  out with the signal of the session, and has nothing of the store change when
  something settles for an invocation whose signal is aborted. In both histories the
  search for \<open>X\<close> (invocation 0) is overtaken by the search for \<open>Y\<close>, which aborts
  the signal of invocation 0 and resets the store. In the first, the search of all
  sources that invocation 0 had requested (\<^verbatim>\<open>searchVideos\<close> takes no signal) then
  settles without a result of the title \<open>X\<close>: invocation 0 sets the error and clears
  the loading flag of the store, which is searching for \<open>Y\<close>. In the second, the one
  search of the fan-out of invocation 0 fails, as an aborted request does: invocation 0
  again sets the error and clears the loading flag.
\<close>

theorem overtaken_search_changes_store:
  "signal_aborted (inits overtakenFallback ! 0)
   \<and> requests overtakenFallback
       = [SearchVideo ''X'' ''A'' 0, SearchVideos ''X'', SearchVideo ''Y'' ''A'' 1]
   \<and> store overtakenFallback = initialState\<lparr>q := Some ''Y'', controller := Some 1\<rparr>
   \<and> store (resume 0 (Reply (Inr [otherResult ''B''])) overtakenFallback)
       = initialState\<lparr>q := Some ''Y'', controller := Some 1, loading := False,
                       error := Some (FallbackNotFound ''X'')\<rparr>
   \<and> signal_aborted (inits overtakenFanOut ! 0)
   \<and> requests overtakenFanOut = [GetResources 0, SearchVideo ''X'' ''A'' 0, GetResources 1]
   \<and> store overtakenFanOut = initialState\<lparr>q := Some ''Y'', controller := Some 1\<rparr>
   \<and> store (resume 0 (TaskReply 0 (Inl ''Request timeout'')) overtakenFanOut)
       = initialState\<lparr>q := Some ''Y'', controller := Some 1, loading := False,
                       error := Some (FanOutNotFound ''X'')\<rparr>"
proof (intro conjI)
  show "signal_aborted (inits overtakenFallback ! 0)"
    by (simp add: overtakenFallback_def world_defs Let_def)
  show "requests overtakenFallback
       = [SearchVideo ''X'' ''A'' 0, SearchVideos ''X'', SearchVideo ''Y'' ''A'' 1]"
    by (simp add: overtakenFallback_def world_defs Let_def)
  show "store overtakenFallback = initialState\<lparr>q := Some ''Y'', controller := Some 1\<rparr>"
    by (simp add: overtakenFallback_def world_defs Let_def)
  show "store (resume 0 (Reply (Inr [otherResult ''B''])) overtakenFallback)
       = initialState\<lparr>q := Some ''Y'', controller := Some 1, loading := False,
                       error := Some (FallbackNotFound ''X'')\<rparr>"
    by (simp add: overtakenFallback_def world_defs Let_def otherResult_def result_def)
  show "signal_aborted (inits overtakenFanOut ! 0)"
    by (simp add: overtakenFanOut_def world_defs Let_def site_def)
  show "requests overtakenFanOut = [GetResources 0, SearchVideo ''X'' ''A'' 0, GetResources 1]"
    by (simp add: overtakenFanOut_def world_defs Let_def site_def)
  show "store overtakenFanOut = initialState\<lparr>q := Some ''Y'', controller := Some 1\<rparr>"
    by (simp add: overtakenFanOut_def world_defs Let_def site_def)
  show "store (resume 0 (TaskReply 0 (Inl ''Request timeout'')) overtakenFanOut)
       = initialState\<lparr>q := Some ''Y'', controller := Some 1, loading := False,
                       error := Some (FanOutNotFound ''X'')\<rparr>"
    by (simp add: overtakenFanOut_def world_defs Let_def site_def)
qed

section \<open>The titles of the results\<close>

text \<open>The invariant under the elementary changes.\<close>

lemma invariant_setState:
  "keeps f \<Longrightarrow> invariant w \<Longrightarrow> invariant (setState f w)"
  by (simp add: invariant_def resultsTitled_def oneLive_def batchesTitled_def keeps_def)

lemma invariant_request: "invariant w \<Longrightarrow> invariant (request c w)"
  by (simp add: invariant_def resultsTitled_def oneLive_def batchesTitled_def)

lemma invariant_requests: "invariant w \<Longrightarrow> invariant (foldl (\<lambda>w' r. request (g r) w') w rs)"
  by (simp add: invariant_def resultsTitled_def oneLive_def batchesTitled_def)

lemma invariant_updateInit:
  assumes "invariant w"
    and "n < length (inits w) \<Longrightarrow> signal_aborted (f (inits w ! n)) = signal_aborted (inits w ! n)"
    and "n < length (inits w) \<Longrightarrow> arg_q (f (inits w ! n)) = arg_q (inits w ! n)"
    and "n < length (inits w) \<Longrightarrow> batchTitled (arg_q (inits w ! n)) (awaiting (f (inits w ! n)))"
  shows "invariant (updateInit n f w)"
proof -
  have sig: "signal_aborted (inits (updateInit n f w) ! m) = signal_aborted (inits w ! m)"
    and arg: "arg_q (inits (updateInit n f w) ! m) = arg_q (inits w ! m)"
    if "m < length (inits w)" for m
    using that assms(2,3) by (cases "m = n"; simp add: updateInit_def)+
  have "oneLive (updateInit n f w)"
    using assms(1) by (simp add: invariant_def oneLive_def sig arg)
  moreover have "batchTitled (arg_q (inits (updateInit n f w) ! m)) (awaiting (inits (updateInit n f w) ! m))"
    if "m < length (inits w)" for m
  proof (cases "m = n")
    case True
    with that assms(3,4) show ?thesis by (simp add: updateInit_def)
  next
    case False
    with that assms(1) show ?thesis
      by (simp add: updateInit_def invariant_def batchesTitled_def list_all_length)
  qed
  then have "batchesTitled (updateInit n f w)"
    by (simp add: batchesTitled_def list_all_length)
  moreover have "resultsTitled (updateInit n f w)"
    using assms(1) by (simp add: invariant_def resultsTitled_def)
  ultimately show ?thesis by (simp add: invariant_def)
qed

lemma invariant_suspend:
  assumes "invariant w" "n < length (inits w) \<Longrightarrow> batchTitled (arg_q (inits w ! n)) a"
  shows "invariant (suspend n a w)"
  unfolding suspend_def using assms by (intro invariant_updateInit) simp_all


lemma invariant_processed:
  assumes "invariant w" "n < length (inits w)" "titled (arg_q (inits w ! n)) batch"
  shows "invariant (processed n probe batch m w)"
proof (cases "signal_aborted (inits w ! n)")
  case True
  then have "processed n probe batch m w = setState (\<lambda>st. st) w"
    by (simp add: processed_def signalAborted_def processAndSetResults_def setState_def)
  with assms(1) show ?thesis by (simp add: setState_def)
next
  case False
  with assms(1,2) have qq: "q (store w) = Some (arg_q (inits w ! n))"
    by (simp add: invariant_def oneLive_def)
  have "resultsTitled (processed n probe batch m w)"
    using assms(1,3) qq
    by (auto simp: invariant_def resultsTitled_def processed_def processAndSetResults_def
        Let_def titled_def list_all_iff title_attachResolution)
  moreover have "oneLive (processed n probe batch m w)"
    using assms(1)
    by (simp add: invariant_def oneLive_def processed_def processAndSetResults_def Let_def)
  moreover have "batchesTitled (processed n probe batch m w)"
    using assms(1)
    by (simp add: invariant_def batchesTitled_def processed_def)
  ultimately show ?thesis by (simp add: invariant_def)
qed







lemma keeps_simps [simp]:
  "keeps (\<lambda>st. st\<lparr>loading := b\<rparr>)"
  "keeps (\<lambda>st. st\<lparr>error := e, loading := b\<rparr>)"
  "keeps (\<lambda>st. st\<lparr>error := e\<rparr>)"
  "keeps (\<lambda>st. st\<lparr>isFavorited := b\<rparr>)"
  "keeps (\<lambda>st. st\<lparr>loading := b, allSourcesLoaded := c\<rparr>)"
  "keeps (\<lambda>st. st\<lparr>detail := d\<rparr>)"
  "keeps (markSourceAsFailed src reason)"
  "keeps (\<lambda>st. snd (getNextAvailableSource cur i st))"
  by (simp_all add: keeps_def markSourceAsFailed_def getNextAvailableSource_def Let_def
      split: list.splits)

lemma titled_filter [simp]: "titled query (filter (\<lambda>item. title item = query) rs)"
  by (simp add: titled_def list_all_iff)

lemma titled_searchVideo: "searchVideo query reply = Inr rs \<Longrightarrow> titled query rs"
  by (auto simp: searchVideo_def split: sum.splits)

lemma invariant_finallyBlock: "invariant w \<Longrightarrow> invariant (finallyBlock n w)"
  by (simp add: finallyBlock_def invariant_suspend invariant_setState batchTitled_def)

lemma invariant_finalCheck: "invariant w \<Longrightarrow> invariant (finalCheck n w)"
  by (simp add: finalCheck_def Let_def invariant_suspend invariant_setState batchTitled_def
      invariant_finallyBlock split: option.splits)

lemma invariant_afterFavorite: "invariant w \<Longrightarrow> invariant (afterFavorite n r w)"
  by (simp add: afterFavorite_def invariant_finallyBlock invariant_setState split: sum.splits)

lemma invariant_afterSearchPreferred:
  "invariant w \<Longrightarrow> invariant (afterSearchPreferred n r w)"
  by (auto simp: afterSearchPreferred_def Let_def invariant_finallyBlock batchTitled_def
      intro!: invariant_suspend invariant_request dest: titled_searchVideo split: sum.splits)

lemma batchTitledD:
  "invariant w \<Longrightarrow> n < length (inits w) \<Longrightarrow> batchTitled (arg_q (inits w ! n)) (awaiting (inits w ! n))"
  by (simp add: invariant_def batchesTitled_def list_all_length)

lemma invariant_afterProcessPreferred:
  assumes "invariant w" "n < length (inits w)" "awaiting (inits w ! n) = ProcessPreferred b"
  shows "invariant (afterProcessPreferred n b probe w)"
proof -
  from batchTitledD [OF assms(1,2)] assms(3) have "titled (arg_q (inits w ! n)) b"
    by (simp add: batchTitled_def)
  with assms(1,2) show ?thesis
    by (simp add: afterProcessPreferred_def Let_def invariant_suspend invariant_request
        invariant_setState invariant_processed batchTitled_def)
qed

lemma invariant_afterSearchBackground:
  "invariant w \<Longrightarrow> invariant (afterSearchBackground n r w)"
  by (auto simp: afterSearchBackground_def Let_def invariant_finallyBlock invariant_finalCheck
      batchTitled_def searchVideos_def intro!: invariant_suspend split: sum.splits)

lemma invariant_afterProcessBackground:
  assumes "invariant w" "n < length (inits w)" "awaiting (inits w ! n) = ProcessBackground b"
  shows "invariant (afterProcessBackground n b probe w)"
proof -
  from batchTitledD [OF assms(1,2)] assms(3) have "titled (arg_q (inits w ! n)) b"
    by (simp add: batchTitled_def)
  with assms(1,2) show ?thesis
    by (simp add: afterProcessBackground_def invariant_finalCheck invariant_processed)
qed

lemma invariant_afterSearchFallback:
  "invariant w \<Longrightarrow> invariant (afterSearchFallback n r w)"
  by (auto simp: afterSearchFallback_def Let_def invariant_finalCheck invariant_setState
      batchTitled_def searchVideos_def intro!: invariant_suspend split: sum.splits)

lemma invariant_afterProcessFallback:
  assumes "invariant w" "n < length (inits w)" "awaiting (inits w ! n) = ProcessFallback b"
  shows "invariant (afterProcessFallback n b probe w)"
proof -
  from batchTitledD [OF assms(1,2)] assms(3) have "titled (arg_q (inits w ! n)) b"
    by (simp add: batchTitled_def)
  with assms(1,2) show ?thesis
    by (simp add: afterProcessFallback_def Let_def invariant_finalCheck invariant_setState
        invariant_processed)
qed

lemma invariant_afterResources:
  "invariant w \<Longrightarrow> invariant (afterResources n r w)"
  by (auto simp: afterResources_def Let_def invariant_finallyBlock invariant_setState
      batchTitled_def list_all_iff getResources_def
      intro!: invariant_suspend invariant_requests split: sum.splits)

lemma invariant_afterFanOut: "invariant w \<Longrightarrow> invariant (afterFanOut n w)"
  by (simp add: afterFanOut_def invariant_finalCheck invariant_setState)

lemma invariant_settle:
  assumes "invariant w" "n < length (inits w)"
  shows "invariant (settle n i w)"
proof (cases "awaiting (inits w ! n)")
  case (FanOut tasks)
  from batchTitledD [OF assms] FanOut
  have "batchTitled (arg_q (inits w ! n)) (FanOut (tasks[i := Settled]))"
    by (simp add: batchTitled_def list_all_update)
  with assms(1) have "invariant (suspend n (FanOut (tasks[i := Settled])) w)"
    by (intro invariant_suspend)
  with FanOut show ?thesis
    by (simp add: settle_def Let_def invariant_afterFanOut)
qed (simp_all add: settle_def assms(1))

lemma invariant_afterTaskSearch:
  assumes "invariant w" "n < length (inits w)"
  shows "invariant (afterTaskSearch n i r w)"
proof (cases "searchVideo (arg_q (inits w ! n)) r")
  case (Inl e)
  with assms show ?thesis by (simp add: afterTaskSearch_def invariant_settle)
next
  case (Inr results)
  note t = titled_searchVideo [OF Inr]
  show ?thesis
  proof (cases "awaiting (inits w ! n)")
    case (FanOut tasks)
    let ?w1 = "updateInit n (\<lambda>c. c\<lparr>totalResults := totalResults c + length results\<rparr>) w"
    from batchTitledD [OF assms] FanOut have old: "batchTitled (arg_q (inits w ! n)) (FanOut tasks)"
      by simp
    then have "invariant ?w1"
      using assms(1) FanOut by (intro invariant_updateInit) simp_all
    moreover have "batchTitled (arg_q (inits ?w1 ! n)) (FanOut (tasks[i := Processing results]))"
      using old t by (simp add: batchTitled_def list_all_update arg_q_updateInit)
    ultimately have "invariant (suspend n (FanOut (tasks[i := Processing results])) ?w1)"
      by (intro invariant_suspend)
    with Inr FanOut assms show ?thesis
      by (simp add: afterTaskSearch_def invariant_settle)
  qed (use Inr assms in \<open>simp_all add: afterTaskSearch_def invariant_settle\<close>)
qed

lemma invariant_afterTaskProcess:
  assumes "invariant w" "n < length (inits w)" "awaiting (inits w ! n) = FanOut tasks"
    and "i < length tasks" "tasks ! i = Processing b"
  shows "invariant (afterTaskProcess n i b probe w)"
proof -
  from batchTitledD [OF assms(1,2)] assms(3-5) have "titled (arg_q (inits w ! n)) b"
    by (auto simp: batchTitled_def list_all_length split: task.splits)
  with assms(1,2) have w1: "invariant (processed n probe b True w)"
    by (intro invariant_processed)
  have len: "n < length (inits (processed n probe b True w))"
    using assms(2) by (simp add: processed_def)
  let ?w1 = "processed n probe b True w"
  have "invariant (updateInit n (\<lambda>c. c\<lparr>firstResultFound := True\<rparr>)
                     (setState (\<lambda>st. st\<lparr>loading := False\<rparr>) ?w1))"
    using w1 len batchTitledD [OF w1 len]
    by (intro invariant_updateInit invariant_setState) simp_all
  with w1 len show ?thesis
    by (simp add: afterTaskProcess_def Let_def invariant_settle)
qed

lemma invariant_dispatch:
  assumes "invariant w" "n < length (inits w)"
  shows "invariant (dispatch n (awaiting (inits w ! n)) e w)"
proof (cases "(n, awaiting (inits w ! n), e, w)" rule: dispatch.cases)
  case (2 n' b probe w')
  with assms show ?thesis by (auto simp: invariant_afterProcessPreferred)
next
  case (4 n' b probe w')
  with assms show ?thesis by (auto simp: invariant_afterProcessBackground)
next
  case (6 n' b probe w')
  with assms show ?thesis by (auto simp: invariant_afterProcessFallback)
next
  case (8 n' tasks i r w')
  with assms show ?thesis by (auto simp: invariant_afterTaskSearch)
next
  case (9 n' tasks i probe w')
  with assms show ?thesis
    by (auto simp: invariant_afterTaskProcess split: task.splits)
qed (use assms in \<open>simp_all add: invariant_afterSearchPreferred invariant_afterSearchBackground
      invariant_afterSearchFallback invariant_afterResources invariant_afterFavorite\<close>)


lemma invariant_initialWorld: "invariant initialWorld"
  by (simp add: invariant_def resultsTitled_def oneLive_def batchesTitled_def initialWorld_def
      initialState_def)

lemma inits_abort:
  "inits (abort w) =
     (case controller (store w) of
        None \<Rightarrow> inits w
      | Some c \<Rightarrow> (inits w)[c := (inits w ! c)\<lparr>signal_aborted := True\<rparr>])"
  by (simp add: abort_def updateInit_def split: option.splits)

lemma invariant_abort:
  assumes "invariant w"
  shows "invariant (abort w)"
proof (cases "controller (store w)")
  case None
  with assms show ?thesis by (simp add: abort_def)
next
  case (Some c)
  let ?f = "\<lambda>i. i\<lparr>signal_aborted := True\<rparr>"
  have sig: "signal_aborted (inits (updateInit c ?f w) ! m) \<or> \<not> signal_aborted (inits w ! m) \<and> m \<noteq> c"
    if "m < length (inits w)" for m
    using that by (cases "m = c") (simp_all add: updateInit_def)
  have arg: "arg_q (inits (updateInit c ?f w) ! m) = arg_q (inits w ! m)" for m
    by (simp add: arg_q_updateInit)
  have "oneLive (updateInit c ?f w)"
    using assms Some sig by (fastforce simp: invariant_def oneLive_def arg)
  moreover have "batchesTitled (updateInit c ?f w)"
  proof (cases "c < length (inits w)")
    case True
    with assms have "batchTitled (arg_q (inits w ! c)) (awaiting (inits w ! c))"
      by (simp add: invariant_def batchesTitled_def list_all_length)
    with assms show ?thesis
      by (simp add: invariant_def batchesTitled_def updateInit_def list_all_update)
  next
    case False
    with assms show ?thesis
      by (simp add: invariant_def batchesTitled_def updateInit_def list_update_beyond)
  qed
  moreover have "resultsTitled (updateInit c ?f w)"
    using assms by (simp add: invariant_def resultsTitled_def)
  ultimately show ?thesis using Some by (simp add: abort_def invariant_def)
qed

text \<open>After \<^verbatim>\<open>abort\<close> no invocation is live.\<close>

lemma abort_all_aborted:
  assumes "invariant w" "m < length (inits w)"
  shows "signal_aborted (inits (abort w) ! m)"
proof (cases "controller (store w)")
  case None
  with assms show ?thesis by (auto simp: abort_def invariant_def oneLive_def)
next
  case (Some c)
  with assms show ?thesis
    by (cases "m = c") (auto simp: abort_def updateInit_def invariant_def oneLive_def)
qed

lemma invariant_reset:
  assumes "invariant w"
  shows "invariant
     (setState (\<lambda>st. st\<lparr>q := Some query, loading := True, searchResults := [],
                                   detail := None, error := None, allSourcesLoaded := False,
                                   controller := Some (length (inits (abort w)))\<rparr>)
        ((abort w)\<lparr>inits := inits (abort w) @
                 [\<lparr>signal_aborted = False, arg_q = query, videoSource = settings,
                   firstResultFound = False, totalResults = 0, awaiting = Returned\<rparr>]\<rparr>))"
    (is "invariant ?w3")
proof -
  have ab: "invariant (abort w)" using assms by (rule invariant_abort)
  have dead: "signal_aborted (inits (abort w) ! m)" if "m < length (inits (abort w))" for m
    using that abort_all_aborted [OF assms, of m] by (simp add: inits_abort split: option.splits)
  have "resultsTitled ?w3" by (simp add: resultsTitled_def)
  moreover have "oneLive ?w3"
    using dead by (auto simp: oneLive_def nth_append less_Suc_eq)
  moreover have "batchesTitled ?w3"
    using ab by (simp add: invariant_def batchesTitled_def batchTitled_def)
  ultimately show ?thesis by (simp add: invariant_def)
qed

lemma invariant_initStart:
  assumes "invariant w"
  shows "invariant (initStart query preferredSource idv settings w)"
  using invariant_reset [OF assms, of query settings]
  by (auto simp: initStart_def Let_def batchTitled_def
      intro!: invariant_suspend invariant_request split: option.splits)

lemma step_invariant: "step w w' \<Longrightarrow> invariant w \<Longrightarrow> invariant w'"
  by (induction rule: step.induct)
     (simp_all add: invariant_initStart resume_def invariant_dispatch invariant_abort
        setDetail_def favoriteAnswered_def invariant_setState)

lemma reachable_invariant: "reachable w \<Longrightarrow> invariant w"
  unfolding reachable_def
  by (induction rule: rtranclp_induct) (auto intro: invariant_initialWorld step_invariant)

lemma length_inits_processed [simp]: "length (inits (processed n probe b m w)) = length (inits w)"
  by (simp add: processed_def)

lemma length_inits_finallyBlock [simp]: "length (inits (finallyBlock n w)) = length (inits w)"
  by (simp add: finallyBlock_def)

lemma length_inits_finalCheck [simp]: "length (inits (finalCheck n w)) = length (inits w)"
  by (simp add: finalCheck_def Let_def split: option.splits)

lemma length_inits_afterFanOut [simp]: "length (inits (afterFanOut n w)) = length (inits w)"
  by (simp add: afterFanOut_def)

lemma length_inits_settle [simp]: "length (inits (settle n i w)) = length (inits w)"
  by (simp add: settle_def Let_def split: awaiting.splits)

lemma length_inits_dispatch: "length (inits (dispatch n a e w)) = length (inits w)"
  by (cases "(n, a, e, w)" rule: dispatch.cases)
     (simp_all add: handler_defs Let_def split: sum.splits task.splits awaiting.splits)

lemma length_inits_resume [simp]: "length (inits (resume n e w)) = length (inits w)"
  by (simp add: resume_def length_inits_dispatch)

lemma length_inits_initStart [simp]:
  "length (inits (initStart query p i s w)) = Suc (length (inits w))"
  by (simp add: initStart_def Let_def split: option.splits)

lemma reachable_step: "reachable w \<Longrightarrow> step w w' \<Longrightarrow> reachable w'"
  by (simp add: reachable_def)

lemma reachable_initialWorld: "reachable initialWorld"
  by (simp add: reachable_def)

lemma reachable_preferredRun:
  "reachable w \<Longrightarrow> reachable (preferredRun query p idv settings reply1 reply2 probe fav w)"
  unfolding preferredRun_def preferredProcessed_def preferredSearched_def Let_def
  by (intro reachable_step [OF _ step_resume] reachable_step [OF _ step_init]) simp_all

text \<open>
  Claim C10: in every world the store can get into, by calls of its operations and by
  the invocations of \<^verbatim>\<open>init\<close> going on in any order, every result the store holds has
  the title the store searches for. (\<^verbatim>\<open>searchVideo\<close> filters by the title in the API
  client, the fallback and the background search filter before they merge, and a merge
  of an invocation that has been overtaken is stopped by its signal.)
\<close>

theorem results_have_the_title_of_the_query:
  "reachable w \<Longrightarrow> \<forall>c \<in> set (searchResults (store w)). q (store w) = Some (title c)"
  by (drule reachable_invariant) (simp add: invariant_def resultsTitled_def list_all_iff)

theorem results_have_the_title_of_the_query_witness:
  "reachable fallbackFiltered
   \<and> map source (searchResults (store fallbackFiltered)) = [''B'', ''C'']
   \<and> q (store fallbackFiltered) = Some ''X''
   \<and> list_all (\<lambda>c. q (store fallbackFiltered) = Some (title c))
        (searchResults (store fallbackFiltered))"
proof -
  have r: "reachable fallbackFiltered"
    unfolding fallbackFiltered_def by (intro reachable_preferredRun reachable_initialWorld)
  from results_have_the_title_of_the_query [OF r]
  have t: "list_all (\<lambda>c. q (store fallbackFiltered) = Some (title c))
             (searchResults (store fallbackFiltered))"
    by (simp add: list_all_iff)
  have h: "''A'' \<noteq> []" "''1'' \<noteq> []"
    "searchVideo ''X'' (Inr [otherResult ''A'']) = Inr [] \<or> (\<exists>e. Inr [otherResult ''A''] = Inl e)"
    "filter (\<lambda>item. title item = ''X'')
       [result ''B'' 1 3 None, otherResult ''D'', result ''C'' 2 3 None] \<noteq> []"
    by (simp_all add: searchVideo_def otherResult_def result_def)
  note run = preferredRun_match(1-3) [OF h, where settings = allEnabled and probe = noProbe
      and fav = "Inr False" and w = initialWorld, folded fallbackFiltered_def]
  have s: "map source (searchResults (store fallbackFiltered)) = [''B'', ''C'']"
    by (simp add: run(1) otherResult_def result_def attachResolution_def)
  have "searchResults (store fallbackFiltered) \<noteq> []"
    using s by auto
  with t have "q (store fallbackFiltered) = Some ''X''"
    by (cases "searchResults (store fallbackFiltered)")
       (simp_all add: run(1) otherResult_def result_def attachResolution_def)
  with r s t show ?thesis by simp
qed

end
